theory Spec2Isabelle
  imports Main "HOL-Library.Char_ord" "HOL-Library.List_Lexorder" "HOL-Library.Product_Lexorder"
    "HOL-Library.Multiset"
begin

section \<open>The event commands of \<^verbatim>\<open>evennia/contrib/events/commands.py\<close>\<close>

text \<open>
  The module defines the command \<^verbatim>\<open>@event\<close> (class \<^verbatim>\<open>CmdEvent\<close>) and the three callbacks
  \<^verbatim>\<open>_ev_load\<close>, \<^verbatim>\<open>_ev_save\<close>, \<^verbatim>\<open>_ev_quit\<close> handed to the line editor. Everything the
  Python code mutates (the handler's storage, the caller's attribute \<^verbatim>\<open>db._event\<close>, the
  messages sent, the editor opened) is a field of the record \<open>world\<close>, passed in and
  returned; an exception that leaves a function is the \<open>Inl\<close> of its result.
\<close>

subsection \<open>Python values and exceptions\<close>

text \<open>Game objects (callers, authors, targets) are identified by their database id.\<close>

type_synonym obj = nat

datatype pyval = PNone | PBool bool | PInt int | PStr string | PObj obj | PTime int

text \<open>
  A Python \<^verbatim>\<open>dict\<close> with string keys, the event dictionaries: the list of its items
  in insertion order, with \<open>map_of\<close> for the lookup. \<^verbatim>\<open>d[key] = v\<close> replaces the value
  of a key in place and appends a new key.
\<close>

type_synonym event = "(string \<times> pyval) list"

fun dict_set :: "string \<Rightarrow> pyval \<Rightarrow> event \<Rightarrow> event" where
  "dict_set key v [] = [(key, v)]"
| "dict_set key v (item # d) =
     (if fst item = key then (key, v) # d else item # dict_set key v d)"

datatype py_error =
    ValueError | AssertionError | IndexError | KeyError | TypeError | AttributeError
  | UnknownEventType | IndexOutOfRange

text \<open>Truth value testing; a \<^verbatim>\<open>datetime\<close> and a game object are always true.\<close>

fun truthy :: "pyval \<Rightarrow> bool" where
  "truthy PNone = False"
| "truthy (PBool b) = b"
| "truthy (PInt i) = (i \<noteq> 0)"
| "truthy (PStr s) = (s \<noteq> [])"
| "truthy (PObj x) = True"
| "truthy (PTime t) = True"

subsection \<open>String methods used by the module\<close>

text \<open>
  Characters are code points below 256. \<^verbatim>\<open>str.lower\<close> there maps \<^verbatim>\<open>A-Z\<close> and the
  Latin-1 capitals (192 to 222 without the multiplication sign 215) to the code point 32
  above, which is the same code point with bit 5 set.
\<close>

definition py_lower_char :: "char \<Rightarrow> char" where
  "py_lower_char c =
     (let n = (of_char c :: nat)
      in if (65 \<le> n \<and> n \<le> 90) \<or> (192 \<le> n \<and> n \<le> 222 \<and> n \<noteq> 215)
         then Char (digit0 c) (digit1 c) (digit2 c) (digit3 c) (digit4 c) True (digit6 c) (digit7 c)
         else c)"

definition lower :: "string \<Rightarrow> string" where
  "lower s = map py_lower_char s"

text \<open>\<^verbatim>\<open>s.partition(" ")\<close>: head, separator and tail at the first space.\<close>

definition partition_space :: "string \<Rightarrow> string \<times> string \<times> string" where
  "partition_space s =
     (case dropWhile (\<lambda>c. c \<noteq> CHR '' '') s of
        [] \<Rightarrow> (s, [], [])
      | _ # rest \<Rightarrow> (takeWhile (\<lambda>c. c \<noteq> CHR '' '') s, '' '', rest))"

text \<open>\<^verbatim>\<open>str.isspace\<close> on one character, and \<^verbatim>\<open>str.strip()\<close>.\<close>

definition py_isspace :: "char \<Rightarrow> bool" where
  "py_isspace c =
     (let n = (of_char c :: nat)
      in (9 \<le> n \<and> n \<le> 13) \<or> (28 \<le> n \<and> n \<le> 32) \<or> n = 133 \<or> n = 160)"

definition strip :: "string \<Rightarrow> string" where
  "strip s = rev (dropWhile py_isspace (rev (dropWhile py_isspace s)))"

text \<open>
  \<^verbatim>\<open>int(s)\<close> on a string, base ten: blanks around, an optional sign, then decimal digits,
  where single underscores may stand between digits. Anything else is a \<^verbatim>\<open>ValueError\<close>.
  The blanks \<^verbatim>\<open>int\<close> skips are fewer than those of \<^verbatim>\<open>str.strip\<close>: below 128 only the
  tab, the line feed, the vertical tab, the form feed, the carriage return and the space
  (the separators 28 to 31 are rejected), above it the next-line character 133 and the
  no-break space 160.
\<close>

definition int_isspace :: "char \<Rightarrow> bool" where
  "int_isspace c =
     (let n = (of_char c :: nat) in (9 \<le> n \<and> n \<le> 13) \<or> n = 32 \<or> n = 133 \<or> n = 160)"

definition int_strip :: "string \<Rightarrow> string" where
  "int_strip s = rev (dropWhile int_isspace (rev (dropWhile int_isspace s)))"

definition is_digit :: "char \<Rightarrow> bool" where
  "is_digit c = (let n = (of_char c :: nat) in 48 \<le> n \<and> n \<le> 57)"

definition digit_val :: "char \<Rightarrow> int" where
  "digit_val c = int (of_char c) - 48"

fun parse_digits :: "int \<Rightarrow> string \<Rightarrow> int option" where
  "parse_digits acc [] = Some acc"
| "parse_digits acc (c # cs) =
     (if is_digit c then parse_digits (acc * 10 + digit_val c) cs
      else if c = CHR ''_'' then
        (case cs of
           [] \<Rightarrow> None
         | d # ds \<Rightarrow> if is_digit d then parse_digits (acc * 10 + digit_val d) ds else None)
      else None)"

definition parse_number :: "string \<Rightarrow> int option" where
  "parse_number s =
     (case s of
        [] \<Rightarrow> None
      | c # cs \<Rightarrow> if is_digit c then parse_digits (digit_val c) cs else None)"

definition py_int :: "string \<Rightarrow> py_error + int" where
  "py_int s =
     (case int_strip s of
        [] \<Rightarrow> Inl ValueError
      | c # cs \<Rightarrow>
          if c = CHR ''-'' then
            (case parse_number cs of None \<Rightarrow> Inl ValueError | Some n \<Rightarrow> Inr (- n))
          else if c = CHR ''+'' then
            (case parse_number cs of None \<Rightarrow> Inl ValueError | Some n \<Rightarrow> Inr n)
          else
            (case parse_number (c # cs) of None \<Rightarrow> Inl ValueError | Some n \<Rightarrow> Inr n))"

text \<open>\<^verbatim>\<open>str(n)\<close> for an integer, as \<^verbatim>\<open>format\<close> prints it.\<close>

fun str_of_nat :: "nat \<Rightarrow> string" where
  "str_of_nat n =
     (if n < 10 then [''0123456789'' ! n]
      else str_of_nat (n div 10) @ [''0123456789'' ! (n mod 10)])"

declare str_of_nat.simps [simp del]

definition str_of_int :: "int \<Rightarrow> string" where
  "str_of_int i = (if i < 0 then CHR ''-'' # str_of_nat (nat (- i)) else str_of_nat (nat i))"

text \<open>
  \<^verbatim>\<open>str.splitlines()\<close>: the lines of a string without their line ends. A line ends at
  \<^verbatim>\<open>\n\<close>, \<^verbatim>\<open>\r\<close>, \<^verbatim>\<open>\r\n\<close> (one boundary), \<^verbatim>\<open>\v\<close>, \<^verbatim>\<open>\f\<close>, the separators 28 to 30 and
  the next-line character 133; text after the last boundary is a line only when it is not
  empty. The first argument is the current line, reversed.
\<close>

definition is_linebreak :: "char \<Rightarrow> bool" where
  "is_linebreak c =
     (let n = (of_char c :: nat) in (10 \<le> n \<and> n \<le> 13) \<or> (28 \<le> n \<and> n \<le> 30) \<or> n = 133)"

fun splitlines_from :: "string \<Rightarrow> string \<Rightarrow> string list" where
  "splitlines_from cur [] = (if cur = [] then [] else [rev cur])"
| "splitlines_from cur (c # cs) =
     (if c = CHR 0x0D then
        (case cs of
           [] \<Rightarrow> [rev cur]
         | d # ds \<Rightarrow>
             if d = CHR 0x0A then rev cur # splitlines_from [] ds
             else rev cur # splitlines_from [] (d # ds))
      else if is_linebreak c then rev cur # splitlines_from [] cs
      else splitlines_from (c # cur) cs)"

definition splitlines :: "string \<Rightarrow> string list" where
  "splitlines s = splitlines_from [] s"

subsection \<open>The event handler\<close>

text \<open>
  The handler script (\<^verbatim>\<open>get_event_handler()\<close>) holds, for every object, the events
  connected to it, a \<^verbatim>\<open>dict\<close> from event name to the list of event dictionaries, and
  tells the event types of the object's typeclass, a \<^verbatim>\<open>dict\<close> from event name to a pair
  whose second component is the description. The types are listed as the items of that
  \<^verbatim>\<open>dict\<close> (the command iterates over them), the events are a map.
\<close>

record event_handler =
  events :: "obj \<Rightarrow> (string \<rightharpoonup> event list)"
  event_types :: "obj \<Rightarrow> (string \<times> string \<times> string) list"

text \<open>
  Modelled from the spec: the handler's \<^verbatim>\<open>get_events\<close> and \<^verbatim>\<open>get_event_types\<close>, whose
  code is not part of the module. Both are pure reads and never fail.
\<close>

definition get_events :: "event_handler \<Rightarrow> obj \<Rightarrow> (string \<rightharpoonup> event list)" where
  "get_events h ob = events h ob"

definition get_event_types :: "event_handler \<Rightarrow> obj \<Rightarrow> (string \<times> string \<times> string) list" where
  "get_event_types h ob = event_types h ob"

text \<open>
  An event dictionary with its address: the keys \<^verbatim>\<open>obj\<close>, \<^verbatim>\<open>name\<close> and \<^verbatim>\<open>number\<close> set,
  in this order, as \<^verbatim>\<open>edit_event\<close> of the command sets them on its copy of the event.
\<close>

definition with_address :: "event \<Rightarrow> obj \<Rightarrow> string \<Rightarrow> int \<Rightarrow> event" where
  "with_address e ob event_name number =
     dict_set ''number'' (PInt number)
       (dict_set ''name'' (PStr event_name) (dict_set ''obj'' (PObj ob) e))"

text \<open>
  Modelled from the spec: what the handler's \<^verbatim>\<open>edit_event\<close> writes into a binding. It
  replaces the code, sets the author to the editor, sets the update time and sets
  \<open>valid\<close> as given.
\<close>

definition edited :: "event \<Rightarrow> string \<Rightarrow> obj \<Rightarrow> int \<Rightarrow> bool \<Rightarrow> event" where
  "edited e code author clock valid =
     dict_set ''valid'' (PBool valid)
       (dict_set ''updated_on'' (PTime clock)
          (dict_set ''author'' (PObj author) (dict_set ''code'' (PStr code) e)))"

text \<open>
  Modelled from the spec: the handler's \<^verbatim>\<open>add_event(obj, event_name, code, author, valid)\<close>,
  whose code is not part of the module. It fails with \<open>UnknownEventType\<close> when the name is
  not registered for the object's class; otherwise it appends a new binding (creation time
  now, no update time) at the end of the list of that name and returns the binding together
  with its address: the object, the name and the index, which is the former length of the
  list. The second argument is the clock.
\<close>

definition handler_add_event ::
  "event_handler \<Rightarrow> int \<Rightarrow> obj \<Rightarrow> string \<Rightarrow> string \<Rightarrow> obj \<Rightarrow> bool
     \<Rightarrow> py_error + (event \<times> event_handler)" where
  "handler_add_event h clock ob event_name code author valid =
     (if map_of (event_types h ob) event_name = None then Inl UnknownEventType
      else
        let old = (case events h ob event_name of None \<Rightarrow> [] | Some bs \<Rightarrow> bs);
            b = [(''created_on'', PTime clock), (''author'', PObj author),
                 (''valid'', PBool valid), (''code'', PStr code)]
        in Inr (with_address b ob event_name (int (length old)),
                h\<lparr>events := (events h)(ob := (events h ob)(event_name \<mapsto> old @ [b]))\<rparr>))"

text \<open>
  Modelled from the spec: the handler's
  \<^verbatim>\<open>edit_event(obj, event_name, index, new_code, author, valid)\<close>, whose code is not part of
  the module. It fails with \<open>IndexOutOfRange\<close> when the index does not address an existing
  binding (indices are \<open>0..N-1\<close>); otherwise it replaces the code, sets the author to the
  editor, sets the update time to now and sets \<open>valid\<close> as given, and returns the binding
  with its address. The save callback passes the object, the name and the index as it
  reads them from a dictionary, so they arrive here as Python values; values that are not
  an object, a string and an integer address no binding.
\<close>

definition handler_edit_event ::
  "event_handler \<Rightarrow> int \<Rightarrow> pyval \<Rightarrow> pyval \<Rightarrow> pyval \<Rightarrow> string \<Rightarrow> obj \<Rightarrow> bool
     \<Rightarrow> py_error + (event \<times> event_handler)" where
  "handler_edit_event h clock vobj vname vnumber code author valid =
     (case (vobj, vname, vnumber) of
        (PObj ob, PStr event_name, PInt i) \<Rightarrow>
          (case events h ob event_name of
             None \<Rightarrow> Inl IndexOutOfRange
           | Some bs \<Rightarrow>
               if 0 \<le> i \<and> i < int (length bs) then
                 let b = edited (bs ! nat i) code author clock valid
                 in Inr (with_address b ob event_name i,
                         h\<lparr>events :=
                             (events h)(ob := (events h ob)(event_name \<mapsto> bs[nat i := b]))\<rparr>)
               else Inl IndexOutOfRange)
      | _ \<Rightarrow> Inl IndexOutOfRange)"

subsection \<open>The world the command runs in\<close>

datatype cell = CStr string | CInt int

text \<open>A message is a text or a table (\<^verbatim>\<open>EvTable\<close>): its header and its rows.\<close>

datatype message = Text string | Table "string list" "cell list list"

datatype entry = ListEvents | AddEvent | EditEvent | DelEvent | AcceptEvent

record editor_session =
  ed_key :: string
  ed_buffer :: pyval

text \<open>
  \<open>handler\<close> is what \<^verbatim>\<open>get_event_handler()\<close> returns (\<open>None\<close> when the script is not
  running); \<open>db_event\<close> is the attribute \<^verbatim>\<open>caller.db._event\<close>; \<open>editor\<close> the editor
  open for a caller; \<open>out\<close> the messages sent so far, with their receiver.
  \<open>entered\<close> is a ghost field, not in the source: the methods of \<^verbatim>\<open>CmdEvent\<close> entered
  so far. The other fields are what the module reads from its surroundings: the lock check
  \<^verbatim>\<open>caller.locks.check_lockstring(caller, lock)\<close>, the object search, \<^verbatim>\<open>str(obj)\<close>,
  \<^verbatim>\<open>type(obj)\<close> as printed, \<^verbatim>\<open>obj.key\<close>, the clock, \<^verbatim>\<open>time_format\<close> and the two
  settings \<^verbatim>\<open>WITHOUT_VALIDATION\<close> and \<^verbatim>\<open>VALIDATING\<close>.
\<close>

record world =
  handler :: "event_handler option"
  db_event :: "obj \<Rightarrow> event option"
  editor :: "obj \<Rightarrow> editor_session option"
  out :: "(obj \<times> message) list"
  entered :: "entry list"
  check_lockstring :: "obj \<Rightarrow> string \<Rightarrow> bool"
  search :: "obj \<Rightarrow> string \<Rightarrow> obj option"
  obj_str :: "obj \<Rightarrow> string"
  obj_type :: "obj \<Rightarrow> string"
  obj_key :: "obj \<Rightarrow> string"
  now :: int
  time_format :: "int \<Rightarrow> nat \<Rightarrow> string"
  WITHOUT_VALIDATION :: string
  VALIDATING :: string

definition msg :: "world \<Rightarrow> obj \<Rightarrow> message \<Rightarrow> world" where
  "msg w receiver m = w\<lparr>out := out w @ [(receiver, m)]\<rparr>"

definition enter :: "world \<Rightarrow> entry \<Rightarrow> world" where
  "enter w m = w\<lparr>entered := entered w @ [m]\<rparr>"

text \<open>\<^verbatim>\<open>d.get(key)\<close>: \<^verbatim>\<open>None\<close> for a missing key.\<close>

definition dict_get :: "event \<Rightarrow> string \<Rightarrow> pyval" where
  "dict_get d key = (case map_of d key of None \<Rightarrow> PNone | Some v \<Rightarrow> v)"

text \<open>
  The two lock strings the module builds with \<^verbatim>\<open>format\<close>: the one of the save callback,
  \<^verbatim>\<open>"perm({}) or perm(events_without_validation)".format(WITHOUT_VALIDATION)\<close>, and the one
  of the command, \<^verbatim>\<open>"perm({}) or perm(events_validating)".format(VALIDATING)\<close>.
\<close>

definition save_lock :: "world \<Rightarrow> string" where
  "save_lock w = ''perm('' @ WITHOUT_VALIDATION w @ '') or perm(events_without_validation)''"

definition validator_lock :: "world \<Rightarrow> string" where
  "validator_lock w = ''perm('' @ VALIDATING w @ '') or perm(events_validating)''"

subsection \<open>The editor callbacks\<close>

text \<open>
  \<^verbatim>\<open>_ev_load\<close>: \<^verbatim>\<open>caller.db._event and caller.db._event.get("code", "") or ""\<close>. An unset
  attribute reads as \<^verbatim>\<open>None\<close>, and an empty dictionary is false.
\<close>

definition ev_load :: "world \<Rightarrow> obj \<Rightarrow> pyval" where
  "ev_load w caller =
     (case db_event w caller of
        None \<Rightarrow> PStr []
      | Some event \<Rightarrow>
          if event = [] then PStr []
          else
            let code = (case map_of event ''code'' of None \<Rightarrow> PStr [] | Some v \<Rightarrow> v)
            in if truthy code then code else PStr [])"

text \<open>
  \<^verbatim>\<open>_ev_save\<close>. The lock is evaluated first, at every call. The save fails with a message
  when there is no handler, no event in \<^verbatim>\<open>caller.db._event\<close>, or one of the four keys is
  missing there; otherwise it calls the handler's \<^verbatim>\<open>edit_event\<close> and returns \<^verbatim>\<open>True\<close>.
  An exception of the handler leaves the function.
\<close>

definition ev_save :: "world \<Rightarrow> obj \<Rightarrow> string \<Rightarrow> (py_error + bool) \<times> world" where
  "ev_save w caller buf =
     (let autovalid = check_lockstring w caller (save_lock w);
          failed = (Inr False, msg w caller (Text ''Couldn't save this event.''))
      in case handler w of
           None \<Rightarrow> failed
         | Some h \<Rightarrow>
             (case db_event w caller of
                None \<Rightarrow> failed
              | Some event \<Rightarrow>
                  if event = []
                     \<or> \<not> list_all (\<lambda>key. map_of event key \<noteq> None)
                            [''obj'', ''name'', ''number'', ''valid'']
                  then failed
                  else
                    (case (map_of event ''obj'', map_of event ''name'',
                           map_of event ''number'') of
                       (Some vobj, Some vname, Some vnumber) \<Rightarrow>
                         (case handler_edit_event h (now w) vobj vname vnumber buf caller
                                 autovalid of
                            Inl e \<Rightarrow> (Inl e, w)
                          | Inr (ev, h') \<Rightarrow> (Inr True, w\<lparr>handler := Some h'\<rparr>))
                     | _ \<Rightarrow> (Inl KeyError, w))))"

text \<open>\<^verbatim>\<open>_ev_quit\<close>: the attribute is deleted and the exit is acknowledged.\<close>

definition ev_quit :: "world \<Rightarrow> obj \<Rightarrow> world" where
  "ev_quit w caller =
     msg (w\<lparr>db_event := (db_event w)(caller := None)\<rparr>) caller (Text ''Exited the code editor.'')"

text \<open>
  Modelled from the spec: the editor capability \<^verbatim>\<open>EvEditor\<close>, whose code is not part of the
  module. Given the callbacks and a display key it opens a text-buffer session with the
  user; the buffer starts as what the load callback returns.
\<close>

definition EvEditor :: "world \<Rightarrow> obj \<Rightarrow> string \<Rightarrow> world" where
  "EvEditor w caller key =
     w\<lparr>editor := (editor w)(caller \<mapsto> \<lparr>ed_key = key, ed_buffer = ev_load w caller\<rparr>)\<rparr>"

subsection \<open>Listing\<close>

text \<open>
  One row of the table of the events of one name:
  \<^verbatim>\<open>[str(i + 1), author, updated_on]\<close>, and for a validator \<^verbatim>\<open>"Yes"\<close> or \<^verbatim>\<open>"no"\<close>.
  \<^verbatim>\<open>author.key\<close> on a true value that is no object is an \<^verbatim>\<open>AttributeError\<close>, and
  \<^verbatim>\<open>now - updated_on\<close> on a true value that is no time is a \<^verbatim>\<open>TypeError\<close>.
\<close>

definition author_cell :: "world \<Rightarrow> event \<Rightarrow> py_error + string" where
  "author_cell w event =
     (let author = dict_get event ''author''
      in if truthy author then
           (case author of PObj a \<Rightarrow> Inr (obj_key w a) | _ \<Rightarrow> Inl AttributeError)
         else Inr ''|gUnknown|n'')"

definition updated_cell :: "world \<Rightarrow> event \<Rightarrow> py_error + string" where
  "updated_cell w event =
     (let u0 = dict_get event ''updated_on'';
          updated_on = (if u0 = PNone then dict_get event ''created_on'' else u0)
      in if truthy updated_on then
           (case updated_on of
              PTime t \<Rightarrow> Inr (time_format w (now w - t) 1)
            | _ \<Rightarrow> Inl TypeError)
         else Inr ''|gUnknown|n'')"

definition event_row :: "world \<Rightarrow> bool \<Rightarrow> nat \<Rightarrow> event \<Rightarrow> py_error + cell list" where
  "event_row w is_validator i event =
     (case author_cell w event of
        Inl e \<Rightarrow> Inl e
      | Inr author \<Rightarrow>
          (case updated_cell w event of
             Inl e \<Rightarrow> Inl e
           | Inr updated_on \<Rightarrow>
               Inr ([CStr (str_of_nat (i + 1)), CStr author, CStr updated_on]
                    @ (if is_validator
                       then [CStr (if truthy (dict_get event ''valid'') then ''Yes'' else ''no'')]
                       else []))))"

text \<open>The loop \<^verbatim>\<open>for i, event in enumerate(created)\<close>, from index \<open>i\<close> on.\<close>

fun event_rows :: "world \<Rightarrow> bool \<Rightarrow> nat \<Rightarrow> event list \<Rightarrow> py_error + cell list list" where
  "event_rows w is_validator i [] = Inr []"
| "event_rows w is_validator i (event # rest) =
     (case event_row w is_validator i event of
        Inl e \<Rightarrow> Inl e
      | Inr row \<Rightarrow>
          (case event_rows w is_validator (Suc i) rest of
             Inl e \<Rightarrow> Inl e
           | Inr rows \<Rightarrow> Inr (row # rows)))"

text \<open>
  \<^verbatim>\<open>len(e["code"].splitlines())\<close> for one event, and the sum over the events of a name.
\<close>

definition code_lines :: "event \<Rightarrow> py_error + nat" where
  "code_lines e =
     (case map_of e ''code'' of
        None \<Rightarrow> Inl KeyError
      | Some (PStr code) \<Rightarrow> Inr (length (splitlines code))
      | Some _ \<Rightarrow> Inl AttributeError)"

fun sum_code_lines :: "event list \<Rightarrow> py_error + nat" where
  "sum_code_lines [] = Inr 0"
| "sum_code_lines (e # es) =
     (case code_lines e of
        Inl x \<Rightarrow> Inl x
      | Inr n \<Rightarrow> (case sum_code_lines es of Inl x \<Rightarrow> Inl x | Inr m \<Rightarrow> Inr (n + m)))"

text \<open>\<^verbatim>\<open>events.get(name, [])\<close>.\<close>

definition get_or_empty :: "(string \<rightharpoonup> event list) \<Rightarrow> string \<Rightarrow> event list" where
  "get_or_empty evs name = (case evs name of None \<Rightarrow> [] | Some bs \<Rightarrow> bs)"

text \<open>
  One row of the summary, for one item \<^verbatim>\<open>(name, infos)\<close> of the types:
  \<^verbatim>\<open>events.get(name, [])\<close> is counted and its lines are summed, and the description is
  \<^verbatim>\<open>infos[1].splitlines()[0]\<close>, an \<^verbatim>\<open>IndexError\<close> when the description has no line.
\<close>

definition summary_row ::
  "(string \<rightharpoonup> event list) \<Rightarrow> string \<times> string \<times> string \<Rightarrow> py_error + cell list" where
  "summary_row evs item =
     (let name = fst item; infos = snd item;
          created = get_or_empty evs name;
          number = length created
      in case sum_code_lines created of
           Inl e \<Rightarrow> Inl e
         | Inr lines \<Rightarrow>
             (case splitlines (snd infos) of
                [] \<Rightarrow> Inl IndexError
              | description # _ \<Rightarrow>
                  Inr [CStr name, CInt (int number), CInt (int lines), CStr description]))"

fun summary_rows ::
  "(string \<rightharpoonup> event list) \<Rightarrow> (string \<times> string \<times> string) list \<Rightarrow> py_error + cell list list" where
  "summary_rows evs [] = Inr []"
| "summary_rows evs (item # rest) =
     (case summary_row evs item of
        Inl e \<Rightarrow> Inl e
      | Inr row \<Rightarrow>
          (case summary_rows evs rest of Inl e \<Rightarrow> Inl e | Inr rows \<Rightarrow> Inr (row # rows)))"

subsection \<open>The methods of the command\<close>

text \<open>
  Each of them takes the fields of \<^verbatim>\<open>self\<close> it reads: the caller, \<^verbatim>\<open>self.obj\<close>,
  \<^verbatim>\<open>self.event_name\<close>, \<^verbatim>\<open>self.parameters\<close>, \<^verbatim>\<open>self.is_validator\<close>; \<^verbatim>\<open>self.handler\<close> is the
  handler of the world, and \<^verbatim>\<open>self.msg\<close> sends to the caller. \<^verbatim>\<open>sorted(types.items())\<close>
  sorts the items as tuples of strings, which is \<open>sort\<close> in the lexicographic order of
  pairs and of lists of characters by code point. The column formatting of the table is
  not modelled.
\<close>

definition list_events ::
  "world \<Rightarrow> obj \<Rightarrow> obj \<Rightarrow> string \<Rightarrow> bool \<Rightarrow> (py_error + unit) \<times> world" where
  "list_events w caller ob event_name is_validator =
     (let w0 = enter w ListEvents
      in case handler w0 of
           None \<Rightarrow> (Inl AttributeError, w0)
         | Some h \<Rightarrow>
             let evs = get_events h ob; types = get_event_types h ob
             in if event_name \<noteq> [] then
                  (case evs event_name of
                     None \<Rightarrow>
                       (Inr (), msg w0 caller (Text (''No event '' @ event_name
                                  @ '' has been set on '' @ obj_str w0 ob @ ''.'')))
                   | Some created \<Rightarrow>
                       let cols = [''Number'', ''Author'', ''Updated'']
                                  @ (if is_validator then [''Valid''] else [])
                       in (case event_rows w0 is_validator 0 created of
                             Inl e \<Rightarrow> (Inl e, w0)
                           | Inr rows \<Rightarrow> (Inr (), msg w0 caller (Table cols rows))))
                else
                  (case summary_rows evs (sort types) of
                     Inl e \<Rightarrow> (Inl e, w0)
                   | Inr rows \<Rightarrow>
                       (Inr (), msg w0 caller
                          (Table [''Event name'', ''Number'', ''Lines'', ''Description''] rows))))"

definition add_event :: "world \<Rightarrow> obj \<Rightarrow> obj \<Rightarrow> string \<Rightarrow> (py_error + unit) \<times> world" where
  "add_event w caller ob event_name =
     (let w0 = enter w AddEvent
      in case handler w0 of
           None \<Rightarrow> (Inl AttributeError, w0)
         | Some h \<Rightarrow>
             let types = get_event_types h ob
             in (case map_of types event_name of
                   None \<Rightarrow>
                     (Inr (), msg w0 caller (Text (''The event name '' @ event_name
                                @ '' can't be found in '' @ obj_str w0 ob @ '' of typeclass ''
                                @ obj_type w0 ob @ ''.'')))
                 | Some definition \<Rightarrow>
                     let description = snd definition;
                         w1 = msg w0 caller (Text description)
                     in (case handler_add_event h (now w1) ob event_name [] caller False of
                           Inl e \<Rightarrow> (Inl e, w1)
                         | Inr (event, h') \<Rightarrow>
                             let w2 = w1\<lparr>handler := Some h',
                                        db_event := (db_event w1)(caller \<mapsto> event)\<rparr>
                             in (Inr (), EvEditor w2 caller
                                   (''Event '' @ event_name @ '' of '' @ obj_str w2 ob)))))"

text \<open>
  In \<^verbatim>\<open>edit_event\<close> the \<^verbatim>\<open>try\<close> block holds the conversion, the assertion and the
  indexing of the list; its handler catches \<^verbatim>\<open>AssertionError\<close> and \<^verbatim>\<open>ValueError\<close>. The
  message prints \<^verbatim>\<open>parameters\<close> as it stands when the exception is raised: the text given
  when the conversion fails, the number less one when the assertion fails.
\<close>

definition edit_event ::
  "world \<Rightarrow> obj \<Rightarrow> obj \<Rightarrow> string \<Rightarrow> string \<Rightarrow> (py_error + unit) \<times> world" where
  "edit_event w caller ob event_name parameters =
     (let w0 = enter w EditEvent
      in case handler w0 of
           None \<Rightarrow> (Inl AttributeError, w0)
         | Some h \<Rightarrow>
             let evs = get_events h ob; types = get_event_types h ob
             in (case evs event_name of
                   None \<Rightarrow>
                     (Inr (), msg w0 caller (Text (''The event name '' @ event_name
                                @ '' can't be found in '' @ obj_str w0 ob @ ''.'')))
                 | Some created \<Rightarrow>
                     let not_found = (\<lambda>shown. (Inr (), msg w0 caller (Text (''The event ''
                           @ event_name @ '' '' @ shown @ '' cannot be found in ''
                           @ obj_str w0 ob @ ''.''))))
                     in (case py_int parameters of
                           Inl e \<Rightarrow>
                             if e = AssertionError \<or> e = ValueError then not_found parameters
                             else (Inl e, w0)
                         | Inr n \<Rightarrow>
                             let number = n - 1
                             in if number < 0 then not_found (str_of_int number)
                                else if int (length created) \<le> number then (Inl IndexError, w0)
                                else
                                  (case map_of types event_name of
                                     None \<Rightarrow> (Inl KeyError, w0)
                                   | Some definition \<Rightarrow>
                                       let description = snd definition;
                                           w1 = msg w0 caller (Text description);
                                           event = with_address (created ! nat number)
                                                     ob event_name number;
                                           w2 = w1\<lparr>db_event := (db_event w1)(caller \<mapsto> event)\<rparr>
                                       in (Inr (), EvEditor w2 caller
                                             (''Event '' @ event_name @ '' of ''
                                              @ obj_str w2 ob))))))"

definition del_event :: "world \<Rightarrow> obj \<Rightarrow> (py_error + unit) \<times> world" where
  "del_event w caller = (Inr (), msg (enter w DelEvent) caller (Text ''Calling del.''))"

definition accept_event :: "world \<Rightarrow> obj \<Rightarrow> (py_error + unit) \<times> world" where
  "accept_event w caller = (Inr (), msg (enter w AcceptEvent) caller (Text ''Calling accept.''))"

subsection \<open>The command body\<close>

text \<open>
  What the command parser leaves in \<^verbatim>\<open>self\<close> before \<^verbatim>\<open>func\<close> runs: the caller, the
  arguments, the parts left and right of the equal sign (\<^verbatim>\<open>rhs\<close> is \<^verbatim>\<open>None\<close> without one)
  and the switches.
\<close>

record invocation =
  caller :: obj
  args :: string
  lhs :: string
  rhs :: "string option"
  switches :: "string list"

text \<open>
  \<^verbatim>\<open>func\<close>. \<^verbatim>\<open>self.rhs or ""\<close> is the empty string for \<^verbatim>\<open>None\<close>; the event name is the
  part of it before the first space, lowercased, the parameters are the part after.
  \<^verbatim>\<open>self.switches and self.switches[0] or ""\<close> is the first switch, or the empty string.
  A search that finds nothing returns \<^verbatim>\<open>None\<close> (and tells the caller so itself, which is
  not modelled).
\<close>

definition func :: "world \<Rightarrow> invocation \<Rightarrow> (py_error + unit) \<times> world" where
  "func w cmd =
     (let validator = check_lockstring w (caller cmd) (validator_lock w);
          parts = partition_space (case rhs cmd of None \<Rightarrow> [] | Some r \<Rightarrow> r);
          event_name = lower (fst parts);
          parameters = snd (snd parts);
          specify = (Inr (), msg w (caller cmd) (Text ''Specify an object's name or #ID.''))
      in case handler w of
           None \<Rightarrow>
             (Inr (), msg w (caller cmd)
                (Text ''The event handler is not running, can't access the event system.''))
         | Some h \<Rightarrow>
           let searched = (strip (args cmd) \<noteq> []);
               found = (if searched then search w (caller cmd) (lhs cmd) else None)
           in if searched \<and> found = None then (Inr (), w)
              else
                let switch = (case switches cmd of [] \<Rightarrow> [] | s # _ \<Rightarrow> s)
                in if switch = [] then
                     (case found of
                        None \<Rightarrow> specify
                      | Some ob \<Rightarrow> list_events w (caller cmd) ob event_name validator)
                   else if switch = ''add'' then
                     (case found of
                        None \<Rightarrow> specify
                      | Some ob \<Rightarrow> add_event w (caller cmd) ob event_name)
                   else if switch = ''edit'' then
                     (case found of
                        None \<Rightarrow> specify
                      | Some ob \<Rightarrow> edit_event w (caller cmd) ob event_name parameters)
                   else if switch = ''del'' then
                     (case found of None \<Rightarrow> specify | Some ob \<Rightarrow> del_event w (caller cmd))
                   else if switch = ''accept'' \<and> validator then accept_event w (caller cmd)
                   else
                     (Inr (), msg w (caller cmd)
                        (Text ''Mutually exclusive or invalid switches were used, cannot proceed.'')))"

subsection \<open>Well-typed events and the summary row in the words of the specification\<close>

text \<open>
  The handler stores events whose author is an object (or nothing), whose times are times
  (or nothing) and whose code is a string. On such events the listing raises no type
  error.
\<close>

fun is_obj :: "pyval \<Rightarrow> bool" where
  "is_obj (PObj a) = True"
| "is_obj v = False"

fun is_time :: "pyval \<Rightarrow> bool" where
  "is_time (PTime t) = True"
| "is_time v = False"

definition wt_event :: "event \<Rightarrow> bool" where
  "wt_event e =
     ((is_obj (dict_get e ''author'') \<or> dict_get e ''author'' = PNone)
      \<and> (is_time (dict_get e ''updated_on'')
           \<or> (dict_get e ''updated_on'' = PNone
               \<and> (is_time (dict_get e ''created_on'') \<or> dict_get e ''created_on'' = PNone))))"

definition has_code :: "event \<Rightarrow> bool" where
  "has_code e = (case map_of e ''code'' of Some (PStr code) \<Rightarrow> True | _ \<Rightarrow> False)"

definition code_of :: "event \<Rightarrow> string" where
  "code_of e = (case map_of e ''code'' of Some (PStr code) \<Rightarrow> code | _ \<Rightarrow> [])"

text \<open>
  The summary row as the specification words it: the type name, the count of bindings
  under that name, the sum over those bindings of the number of lines of their code, and
  the first line of the description.
\<close>

definition spec_summary_row ::
  "(string \<rightharpoonup> event list) \<Rightarrow> string \<times> string \<times> string \<Rightarrow> cell list" where
  "spec_summary_row evs item =
     [CStr (fst item),
      CInt (int (length (get_or_empty evs (fst item)))),
      CInt (int (sum_list (map (\<lambda>e. length (splitlines (code_of e)))
                            (get_or_empty evs (fst item))))),
      CStr (hd (splitlines (snd (snd item))))]"

text \<open>The event stored for an object under a name at an index, if there is one.\<close>

definition stored :: "world \<Rightarrow> obj \<Rightarrow> string \<Rightarrow> int \<Rightarrow> event option" where
  "stored w ob event_name i =
     (case handler w of
        None \<Rightarrow> None
      | Some h \<Rightarrow>
          (case get_events h ob event_name of
             None \<Rightarrow> None
           | Some bs \<Rightarrow> if 0 \<le> i \<and> i < int (length bs) then Some (bs ! nat i) else None))"

subsection \<open>Example worlds\<close>

text \<open>
  A door with the event type \<^verbatim>\<open>open\<close> and no event yet, and a builder without any
  permission. The variants differ in the handler's storage or in the builder's
  \<^verbatim>\<open>db._event\<close>.
\<close>

definition door :: obj where
  "door = 1"

definition builder :: obj where
  "builder = 2"

definition h_door :: event_handler where
  "h_door = \<lparr>events = (\<lambda>ob. Map.empty),
             event_types = (\<lambda>ob. [(''open'', ''door'', ''Called when the door opens.'')])\<rparr>"

definition w_door :: world where
  "w_door = \<lparr>handler = Some h_door, db_event = (\<lambda>c. None), editor = (\<lambda>c. None), out = [],
              entered = [], check_lockstring = (\<lambda>c lock. False),
              search = (\<lambda>c name. if name = ''door'' then Some door else None),
              obj_str = (\<lambda>ob. ''door''), obj_type = (\<lambda>ob. ''Exit''),
              obj_key = (\<lambda>ob. ''builder''), now = 100, time_format = (\<lambda>secs style. ''1m''),
              WITHOUT_VALIDATION = ''immortals'', VALIDATING = ''immortals''\<rparr>"

text \<open>An accepted event with one line of code, written at time 40.\<close>

definition b_pass :: event where
  "b_pass = [(''created_on'', PTime 40), (''author'', PObj builder),
             (''valid'', PBool True), (''code'', PStr ''pass'')]"

text \<open>The door with that one event under \<^verbatim>\<open>open\<close>.\<close>

definition h_one :: event_handler where
  "h_one = h_door\<lparr>events := (\<lambda>ob. if ob = door then [''open'' \<mapsto> [b_pass]] else Map.empty)\<rparr>"

definition w_one :: world where
  "w_one = w_door\<lparr>handler := Some h_one\<rparr>"

text \<open>The same, with the builder's editor session on that event (index 0).\<close>

definition w_editing :: world where
  "w_editing = w_one\<lparr>db_event := (\<lambda>c. if c = builder
        then Some (with_address b_pass door ''open'' 0)
        else None)\<rparr>"

text \<open>A session that names the door and the event type but carries no index.\<close>

definition w_no_index :: world where
  "w_no_index = w_door\<lparr>db_event := (\<lambda>c. if c = builder
        then Some [(''obj'', PObj door), (''name'', PStr ''open''), (''valid'', PBool False),
                   (''code'', PStr [])]
        else None)\<rparr>"

text \<open>The name \<^verbatim>\<open>open\<close> is a key of the door's events, with an empty list.\<close>

definition h_empty_list :: event_handler where
  "h_empty_list =
     h_door\<lparr>events := (\<lambda>ob. if ob = door then [''open'' \<mapsto> []] else Map.empty)\<rparr>"

definition w_empty_list :: world where
  "w_empty_list = w_door\<lparr>handler := Some h_empty_list\<rparr>"

text \<open>The event type \<^verbatim>\<open>open\<close> is registered with an empty description.\<close>

definition h_no_description :: event_handler where
  "h_no_description = h_door\<lparr>event_types := (\<lambda>ob. [(''open'', ''door'', [])])\<rparr>"

definition w_no_description :: world where
  "w_no_description = w_door\<lparr>handler := Some h_no_description\<rparr>"

text \<open>The door has an event under \<^verbatim>\<open>open\<close>, but no event type is registered any more.\<close>

definition h_orphan :: event_handler where
  "h_orphan = h_one\<lparr>event_types := (\<lambda>ob. [])\<rparr>"

definition w_orphan :: world where
  "w_orphan = w_door\<lparr>handler := Some h_orphan\<rparr>"

text \<open>
  Two event types, registered in the order \<^verbatim>\<open>open\<close>, \<^verbatim>\<open>close\<close>, and two events under
  \<^verbatim>\<open>open\<close>, of one and of two lines.
\<close>

definition b_two_lines :: event where
  "b_two_lines = [(''created_on'', PTime 50), (''author'', PObj builder),
                  (''valid'', PBool False),
                  (''code'', PStr [CHR ''a'', CHR 0x0A, CHR ''b''])]"

definition h_two_types :: event_handler where
  "h_two_types =
     \<lparr>events = (\<lambda>ob. if ob = door then [''open'' \<mapsto> [b_pass, b_two_lines]] else Map.empty),
      event_types = (\<lambda>ob. [(''open'', ''door'', ''Called when the door opens.''),
                            (''close'', ''door'', ''Called when the door closes.'')])\<rparr>"

definition w_two_types :: world where
  "w_two_types = w_door\<lparr>handler := Some h_two_types\<rparr>"

text \<open>Invocations of the command by the builder, on the door.\<close>

definition cmd_door :: "string list \<Rightarrow> string option \<Rightarrow> invocation" where
  "cmd_door sw r = \<lparr>caller = builder, args = ''door'', lhs = ''door'', rhs = r, switches = sw\<rparr>"

section \<open>Properties\<close>

subsection \<open>Dictionaries\<close>

lemma map_of_dict_set: "map_of (dict_set key v d) = (map_of d)(key \<mapsto> v)"
  by (induction d) (auto simp: fun_eq_iff)

lemma dict_set_not_Nil: "dict_set key v d \<noteq> []"
  by (cases d) auto

lemma map_of_with_address:
  "map_of (with_address e ob name i) =
     (map_of e)(''obj'' \<mapsto> PObj ob, ''name'' \<mapsto> PStr name, ''number'' \<mapsto> PInt i)"
  by (simp add: with_address_def map_of_dict_set)

lemma map_of_edited:
  "map_of (edited e code author clock valid) =
     (map_of e)(''code'' \<mapsto> PStr code, ''author'' \<mapsto> PObj author,
                ''updated_on'' \<mapsto> PTime clock, ''valid'' \<mapsto> PBool valid)"
  by (simp add: edited_def map_of_dict_set)

subsection \<open>The save callback\<close>

lemma ev_save_unfold:
  assumes "handler w = Some h" "db_event w c = Some e"
    "map_of e ''obj'' = Some vobj" "map_of e ''name'' = Some vname"
    "map_of e ''number'' = Some vnumber" "map_of e ''valid'' = Some vvalid"
  shows "ev_save w c buf =
     (case handler_edit_event h (now w) vobj vname vnumber buf c
             (check_lockstring w c (save_lock w)) of
        Inl err \<Rightarrow> (Inl err, w)
      | Inr (ev, h') \<Rightarrow> (Inr True, w\<lparr>handler := Some h'\<rparr>))"
proof -
  from assms(3) have "e \<noteq> []" by auto
  with assms show ?thesis
    by (simp add: ev_save_def Let_def)
qed

lemma ev_save_fails:
  assumes "handler w = None \<or> db_event w c = None
     \<or> (\<exists>e. db_event w c = Some e
            \<and> (map_of e ''obj'' = None \<or> map_of e ''name'' = None
                \<or> map_of e ''number'' = None \<or> map_of e ''valid'' = None))"
  shows "ev_save w c buf = (Inr False, msg w c (Text ''Couldn't save this event.''))"
  using assms by (auto simp: ev_save_def Let_def split: option.splits)

text \<open>
  C6. A save whose session state is incomplete (no event in \<^verbatim>\<open>caller.db._event\<close>, or one
  of the keys \<^verbatim>\<open>obj\<close>, \<^verbatim>\<open>name\<close>, \<^verbatim>\<open>number\<close>, \<^verbatim>\<open>valid\<close> missing), or that finds no
  handler, returns \<^verbatim>\<open>False\<close>, sends the caller one message and changes nothing else: the
  handler and its storage are as before.
\<close>

theorem ev_save_incomplete:
  assumes "handler w = None \<or> db_event w c = None
     \<or> (\<exists>e. db_event w c = Some e
            \<and> (map_of e ''obj'' = None \<or> map_of e ''name'' = None
                \<or> map_of e ''number'' = None \<or> map_of e ''valid'' = None))"
  shows "fst (ev_save w c buf) = Inr False
       \<and> out (snd (ev_save w c buf)) = out w @ [(c, Text ''Couldn't save this event.'')]
       \<and> handler (snd (ev_save w c buf)) = handler w
       \<and> snd (ev_save w c buf) = w\<lparr>out := out w @ [(c, Text ''Couldn't save this event.'')]\<rparr>"
  using ev_save_fails [OF assms] by (simp add: msg_def)

theorem ev_save_incomplete_witness:
  "(\<exists>e. db_event w_no_index builder = Some e \<and> map_of e ''number'' = None)
   \<and> fst (ev_save w_no_index builder ''pass'') = Inr False
   \<and> out (snd (ev_save w_no_index builder ''pass''))
       = out w_no_index @ [(builder, Text ''Couldn't save this event.'')]
   \<and> handler (snd (ev_save w_no_index builder ''pass'')) = handler w_no_index"
proof -
  have h: "\<exists>e. db_event w_no_index builder = Some e \<and> map_of e ''number'' = None"
    by (simp add: w_no_index_def)
  then have "handler w_no_index = None \<or> db_event w_no_index builder = None
     \<or> (\<exists>e. db_event w_no_index builder = Some e
            \<and> (map_of e ''obj'' = None \<or> map_of e ''name'' = None
                \<or> map_of e ''number'' = None \<or> map_of e ''valid'' = None))"
    by blast
  from ev_save_incomplete [OF this] h show ?thesis by blast
qed

lemma handler_edit_event_Inr:
  assumes "handler_edit_event h clock vobj vname vnumber code author valid = Inr (ev, h')"
  shows "\<exists>ob name i bs. vobj = PObj ob \<and> vname = PStr name \<and> vnumber = PInt i
      \<and> events h ob name = Some bs \<and> 0 \<le> i \<and> i < int (length bs)
      \<and> events h' ob name = Some (bs[nat i := edited (bs ! nat i) code author clock valid])"
  using assms
  by (auto simp: handler_edit_event_def Let_def split: pyval.splits option.splits if_splits)

lemma ev_save_True:
  assumes "ev_save w c buf = (Inr True, w')"
  shows "\<exists>h e vobj vname vnumber h' ev. handler w = Some h \<and> db_event w c = Some e
     \<and> map_of e ''obj'' = Some vobj \<and> map_of e ''name'' = Some vname
     \<and> map_of e ''number'' = Some vnumber
     \<and> handler_edit_event h (now w) vobj vname vnumber buf c
           (check_lockstring w c (save_lock w)) = Inr (ev, h')
     \<and> w' = w\<lparr>handler := Some h'\<rparr>"
  using assms
  by (auto simp: ev_save_def msg_def Let_def
      split: option.splits if_splits sum.splits prod.splits)

text \<open>
  C3. Whenever a save succeeds, it has called the handler's \<^verbatim>\<open>edit_event\<close> with
  \<open>valid\<close> equal to the result of the lock check of this very call, and the event stored
  at the address of the session has this value as its \<^verbatim>\<open>valid\<close> flag, whatever the flag
  was before and whatever the world went through before (the world \<open>w\<close> is arbitrary, so
  it may be the world an earlier save has left); the stored event also has the saved
  buffer as its code.
\<close>

theorem ev_save_valid_is_permission:
  assumes "ev_save w c buf = (Inr True, w')"
  shows "\<exists>e ob name i b h ev h'. db_event w c = Some e \<and> map_of e ''obj'' = Some (PObj ob)
      \<and> map_of e ''name'' = Some (PStr name) \<and> map_of e ''number'' = Some (PInt i)
      \<and> handler w = Some h
      \<and> handler_edit_event h (now w) (PObj ob) (PStr name) (PInt i) buf c
            (check_lockstring w c (save_lock w)) = Inr (ev, h')
      \<and> w' = w\<lparr>handler := Some h'\<rparr>
      \<and> stored w' ob name i = Some b
      \<and> map_of b ''valid'' = Some (PBool (check_lockstring w c (save_lock w)))
      \<and> map_of b ''code'' = Some (PStr buf)"
proof -
  from ev_save_True [OF assms] obtain h e vobj vname vnumber h' ev where
    s: "handler w = Some h" "db_event w c = Some e" "map_of e ''obj'' = Some vobj"
       "map_of e ''name'' = Some vname" "map_of e ''number'' = Some vnumber"
    and ed: "handler_edit_event h (now w) vobj vname vnumber buf c
           (check_lockstring w c (save_lock w)) = Inr (ev, h')"
    and w': "w' = w\<lparr>handler := Some h'\<rparr>"
    by blast
  from handler_edit_event_Inr [OF ed] obtain ob name i bs where
    v: "vobj = PObj ob" "vname = PStr name" "vnumber = PInt i"
    and i: "0 \<le> i" "i < int (length bs)"
    and ev': "events h' ob name = Some (bs[nat i := edited (bs ! nat i) buf c (now w)
                (check_lockstring w c (save_lock w))])"
    by blast
  let ?b = "edited (bs ! nat i) buf c (now w) (check_lockstring w c (save_lock w))"
  from i have "nat i < length bs" by simp
  with i ev' w' have "stored w' ob name i = Some ?b"
    by (simp add: stored_def get_events_def)
  moreover have "map_of ?b ''valid'' = Some (PBool (check_lockstring w c (save_lock w)))"
    "map_of ?b ''code'' = Some (PStr buf)"
    by (simp_all add: map_of_edited)
  ultimately show ?thesis using s v ed w' by blast
qed

theorem ev_save_valid_is_permission_witness:
  "fst (ev_save w_editing builder ''say hello'') = Inr True
   \<and> map_option (\<lambda>b. map_of b ''valid'') (stored w_editing door ''open'' 0) = Some (Some (PBool True))
   \<and> check_lockstring w_editing builder (save_lock w_editing) = False
   \<and> (\<exists>b. stored (snd (ev_save w_editing builder ''say hello'')) door ''open'' 0 = Some b
        \<and> map_of b ''valid'' = Some (PBool False)
        \<and> map_of b ''code'' = Some (PStr ''say hello''))
   \<and> map_option (\<lambda>b. map_of b ''valid'')
        (stored (snd (ev_save ((snd (ev_save w_editing builder ''say hello''))
                                 \<lparr>check_lockstring := (\<lambda>c lock. True)\<rparr>) builder ''say bye''))
           door ''open'' 0)
       = Some (Some (PBool True))"
proof -
  have again: "map_option (\<lambda>b. map_of b ''valid'')
        (stored (snd (ev_save ((snd (ev_save w_editing builder ''say hello''))
                                 \<lparr>check_lockstring := (\<lambda>c lock. True)\<rparr>) builder ''say bye''))
           door ''open'' 0)
       = Some (Some (PBool True))"
    by code_simp
  have ok: "fst (ev_save w_editing builder ''say hello'') = Inr True"
    by code_simp
  have e: "db_event w_editing builder = Some (with_address b_pass door ''open'' 0)"
    by (simp add: w_editing_def)
  have p: "check_lockstring w_editing builder (save_lock w_editing) = False"
    by (simp add: w_editing_def w_one_def w_door_def)
  have prior: "map_option (\<lambda>b. map_of b ''valid'') (stored w_editing door ''open'' 0)
      = Some (Some (PBool True))"
    by code_simp
  from ok have "ev_save w_editing builder ''say hello''
      = (Inr True, snd (ev_save w_editing builder ''say hello''))"
    by (metis prod.collapse)
  from ev_save_valid_is_permission [OF this] e p
  have "\<exists>b. stored (snd (ev_save w_editing builder ''say hello'')) door ''open'' 0 = Some b
        \<and> map_of b ''valid'' = Some (PBool False)
        \<and> map_of b ''code'' = Some (PStr ''say hello'')"
    by (auto simp: map_of_with_address)
  with ok p prior again show ?thesis by blast
qed

text \<open>
  C2 as stated fails: a session that names the object and the event type but carries no
  index is not saved through the handler's \<^verbatim>\<open>add_event\<close>. The save fails, and the store
  still has no event for the name, where \<^verbatim>\<open>add_event\<close> would have stored one.
\<close>

theorem ev_save_no_index_counterexample:
  "(\<exists>e. db_event w_no_index builder = Some e \<and> map_of e ''obj'' = Some (PObj door)
        \<and> map_of e ''name'' = Some (PStr ''open'') \<and> map_of e ''valid'' = Some (PBool False)
        \<and> map_of e ''number'' = None)
   \<and> fst (ev_save w_no_index builder ''pass'') = Inr False
   \<and> stored w_no_index door ''open'' 0 = None
   \<and> stored (snd (ev_save w_no_index builder ''pass'')) door ''open'' 0 = None
   \<and> (case handler_add_event h_door 100 door ''open'' ''pass'' builder False of
         Inl err \<Rightarrow> False
       | Inr (ev, h') \<Rightarrow> map_option length (get_events h' door ''open'') = Some 1)"
proof -
  have "\<exists>e. db_event w_no_index builder = Some e \<and> map_of e ''obj'' = Some (PObj door)
        \<and> map_of e ''name'' = Some (PStr ''open'') \<and> map_of e ''valid'' = Some (PBool False)
        \<and> map_of e ''number'' = None"
    by (simp add: w_no_index_def)
  moreover have "fst (ev_save w_no_index builder ''pass'') = Inr False"
    by code_simp
  moreover have "stored w_no_index door ''open'' 0 = None"
    by code_simp
  moreover have "stored (snd (ev_save w_no_index builder ''pass'')) door ''open'' 0 = None"
    by code_simp
  moreover have "(case handler_add_event h_door 100 door ''open'' ''pass'' builder False of
         Inl err \<Rightarrow> False
       | Inr (ev, h') \<Rightarrow> map_option length (get_events h' door ''open'') = Some 1)"
    by code_simp
  ultimately show ?thesis by blast
qed

text \<open>
  C2, amended. With the handler running and a session that holds the object, the name
  and \<open>valid\<close>: if the session holds an index, the save is exactly one call of the
  handler's \<^verbatim>\<open>edit_event\<close> with the session's object, name and that index, the buffer,
  the caller and the result of the lock check (\<^verbatim>\<open>True\<close> is returned when the handler
  returns, its exception is passed on otherwise); if the session holds no index, the save
  fails with the message and calls nothing. The save never calls \<^verbatim>\<open>add_event\<close>.
\<close>

theorem ev_save_calls_edit_event:
  assumes "handler w = Some h" "db_event w c = Some e"
    "map_of e ''obj'' = Some vobj" "map_of e ''name'' = Some vname"
    "map_of e ''valid'' = Some vvalid"
  shows "(\<forall>vnumber. map_of e ''number'' = Some vnumber \<longrightarrow>
            ev_save w c buf =
              (case handler_edit_event h (now w) vobj vname vnumber buf c
                      (check_lockstring w c (save_lock w)) of
                 Inl err \<Rightarrow> (Inl err, w)
               | Inr (ev, h') \<Rightarrow> (Inr True, w\<lparr>handler := Some h'\<rparr>)))
       \<and> (map_of e ''number'' = None \<longrightarrow>
            ev_save w c buf = (Inr False, msg w c (Text ''Couldn't save this event.'')))"
proof (intro conjI allI impI)
  fix vnumber
  assume n: "map_of e ''number'' = Some vnumber"
  show "ev_save w c buf =
              (case handler_edit_event h (now w) vobj vname vnumber buf c
                      (check_lockstring w c (save_lock w)) of
                 Inl err \<Rightarrow> (Inl err, w)
               | Inr (ev, h') \<Rightarrow> (Inr True, w\<lparr>handler := Some h'\<rparr>))"
    by (rule ev_save_unfold [OF assms(1) assms(2) assms(3) assms(4) n assms(5)])
next
  assume "map_of e ''number'' = None"
  with assms(2) show "ev_save w c buf = (Inr False, msg w c (Text ''Couldn't save this event.''))"
    by (intro ev_save_fails) blast
qed

theorem ev_save_calls_edit_event_witness:
  "handler w_editing = Some h_one
   \<and> db_event w_editing builder = Some (with_address b_pass door ''open'' 0)
   \<and> ev_save w_editing builder ''say hello'' =
       (case handler_edit_event h_one (now w_editing) (PObj door) (PStr ''open'') (PInt 0)
               ''say hello'' builder (check_lockstring w_editing builder (save_lock w_editing)) of
          Inl err \<Rightarrow> (Inl err, w_editing)
        | Inr (ev, h') \<Rightarrow> (Inr True, w_editing\<lparr>handler := Some h'\<rparr>))
   \<and> fst (ev_save w_editing builder ''say hello'') = Inr True"
proof -
  have h: "handler w_editing = Some h_one"
    by (simp add: w_editing_def w_one_def)
  have e: "db_event w_editing builder = Some (with_address b_pass door ''open'' 0)"
    by (simp add: w_editing_def)
  have k: "map_of (with_address b_pass door ''open'' 0) ''obj'' = Some (PObj door)"
    "map_of (with_address b_pass door ''open'' 0) ''name'' = Some (PStr ''open'')"
    "map_of (with_address b_pass door ''open'' 0) ''valid'' = Some (PBool True)"
    "map_of (with_address b_pass door ''open'' 0) ''number'' = Some (PInt 0)"
    by (simp_all add: map_of_with_address b_pass_def)
  have ok: "fst (ev_save w_editing builder ''say hello'') = Inr True"
    by code_simp
  from ev_save_calls_edit_event [OF h e k(1) k(2) k(3), of "''say hello''"] k(4) h e ok
  show ?thesis by blast
qed

subsection \<open>Opening the editor\<close>

lemma entered_msg: "entered (msg w c m) = entered w"
  by (simp add: msg_def)

lemma handler_msg: "handler (msg w c m) = handler w"
  by (simp add: msg_def)

lemma handler_enter: "handler (enter w m) = handler w"
  by (simp add: enter_def)

lemma handler_EvEditor: "handler (EvEditor w c key) = handler w"
  by (simp add: EvEditor_def)

lemma handler_edit_event_cmd: "handler (snd (edit_event w c ob name params)) = handler w"
  by (simp add: edit_event_def Let_def handler_msg handler_enter handler_EvEditor
      split: option.split sum.split)

text \<open>
  C1 as stated fails: the add command on a door without events writes an event with empty
  code and \<open>valid = False\<close> into the store when it opens the editor, before any save.
\<close>

theorem add_command_writes_counterexample:
  "stored w_door door ''open'' 0 = None
   \<and> fst (func w_door (cmd_door [''add''] (Some ''open''))) = Inr ()
   \<and> stored (snd (func w_door (cmd_door [''add''] (Some ''open'')))) door ''open'' 0
       = Some [(''created_on'', PTime 100), (''author'', PObj builder),
               (''valid'', PBool False), (''code'', PStr [])]
   \<and> map_option ed_key (editor (snd (func w_door (cmd_door [''add''] (Some ''open'')))) builder)
       = Some ''Event open of door''"
  by code_simp

text \<open>
  C1, amended. When the event name is registered for the object, the add command itself
  appends one event with empty code and \<open>valid = False\<close> to the object's events of that
  name, and makes this event, with its address, the caller's session. The edit command
  never changes the handler. What is typed in the editor reaches the store only through
  the save callback.
\<close>

theorem add_event_writes_binding:
  assumes "handler w = Some h" "map_of (get_event_types h ob) name = Some d"
  shows "fst (add_event w c ob name) = Inr ()
     \<and> (\<exists>h'. handler (snd (add_event w c ob name)) = Some h'
           \<and> get_events h' ob name =
               Some (get_or_empty (get_events h ob) name
                     @ [[(''created_on'', PTime (now w)), (''author'', PObj c),
                         (''valid'', PBool False), (''code'', PStr [])]]))
     \<and> db_event (snd (add_event w c ob name)) c =
         Some (with_address [(''created_on'', PTime (now w)), (''author'', PObj c),
                             (''valid'', PBool False), (''code'', PStr [])]
                 ob name (int (length (get_or_empty (get_events h ob) name))))
     \<and> handler (snd (edit_event w c ob name params)) = handler w"
proof -
  let ?b = "[(''created_on'', PTime (now w)), (''author'', PObj c),
             (''valid'', PBool False), (''code'', PStr [])]"
  let ?old = "get_or_empty (get_events h ob) name"
  let ?h' = "h\<lparr>events := (events h)(ob := (events h ob)(name \<mapsto> ?old @ [?b]))\<rparr>"
  from assms(2) have add: "handler_add_event h (now w) ob name [] c False
      = Inr (with_address ?b ob name (int (length ?old)), ?h')"
    by (simp add: handler_add_event_def get_event_types_def get_or_empty_def get_events_def
        Let_def)
  have w0: "handler (enter w AddEvent) = Some h" "now (msg (enter w AddEvent) c m) = now w" for m
    using assms(1) by (simp_all add: enter_def msg_def)
  have res: "add_event w c ob name =
      (Inr (), EvEditor ((msg (enter w AddEvent) c (Text (snd d)))
                 \<lparr>handler := Some ?h',
                   db_event := (db_event (msg (enter w AddEvent) c (Text (snd d))))
                       (c \<mapsto> with_address ?b ob name (int (length ?old)))\<rparr>) c
               (''Event '' @ name @ '' of '' @ obj_str w ob))"
    using assms(2) add w0
    by (simp add: add_event_def Let_def msg_def enter_def)
  have "get_events ?h' ob name = Some (?old @ [?b])"
    by (simp add: get_events_def)
  with res show ?thesis
    by (simp add: EvEditor_def handler_edit_event_cmd)
qed

theorem add_event_writes_binding_witness:
  "handler w_door = Some h_door
   \<and> map_of (get_event_types h_door door) ''open'' = Some (''door'', ''Called when the door opens.'')
   \<and> fst (add_event w_door builder door ''open'') = Inr ()
   \<and> (\<exists>h'. handler (snd (add_event w_door builder door ''open'')) = Some h'
         \<and> get_events h' door ''open'' =
             Some [[(''created_on'', PTime 100), (''author'', PObj builder),
                    (''valid'', PBool False), (''code'', PStr [])]])
   \<and> handler (snd (edit_event w_door builder door ''open'' ''1'')) = handler w_door"
proof -
  have h: "handler w_door = Some h_door"
    by (simp add: w_door_def)
  have t: "map_of (get_event_types h_door door) ''open''
      = Some (''door'', ''Called when the door opens.'')"
    by (simp add: get_event_types_def h_door_def)
  have o: "get_or_empty (get_events h_door door) ''open'' = []" "now w_door = 100"
    by (simp_all add: get_or_empty_def get_events_def h_door_def w_door_def)
  from add_event_writes_binding [OF h t, of builder "''1''"] h t o
  show ?thesis by simp
qed

subsection \<open>The edit command\<close>

text \<open>
  C4. The door has one event under \<^verbatim>\<open>open\<close>. The ordinal \<^verbatim>\<open>2\<close> makes the edit command
  raise \<^verbatim>\<open>IndexError\<close> out of \<^verbatim>\<open>func\<close>, without any message: the indexing stands inside
  the \<^verbatim>\<open>try\<close> block, but the handler catches only \<^verbatim>\<open>AssertionError\<close> and
  \<^verbatim>\<open>ValueError\<close>. The ordinal \<^verbatim>\<open>0\<close> and a text that is no number are reported to the
  caller as not found.
\<close>

theorem edit_ordinal_above_count_raises:
  "map_option length (get_events h_one door ''open'') = Some 1
   \<and> fst (func w_one (cmd_door [''edit''] (Some ''open 2''))) = Inl IndexError
   \<and> out (snd (func w_one (cmd_door [''edit''] (Some ''open 2'')))) = []
   \<and> out (snd (func w_one (cmd_door [''edit''] (Some ''open 0''))))
       = [(builder, Text ''The event open -1 cannot be found in door.'')]
   \<and> out (snd (func w_one (cmd_door [''edit''] (Some ''open two''))))
       = [(builder, Text ''The event open two cannot be found in door.'')]"
  by code_simp

text \<open>The edit command on a name that is a key of the object's events, case by case.\<close>

lemma edit_event_found:
  assumes "handler w = Some h" "get_events h ob name = Some bs"
  shows "edit_event w c ob name params =
     (case py_int params of
        Inl e \<Rightarrow> (Inr (), msg (enter w EditEvent) c (Text (''The event '' @ name @ '' ''
                     @ params @ '' cannot be found in '' @ obj_str w ob @ ''.'')))
      | Inr n \<Rightarrow>
          if n - 1 < 0 then
            (Inr (), msg (enter w EditEvent) c (Text (''The event '' @ name @ '' ''
                     @ str_of_int (n - 1) @ '' cannot be found in '' @ obj_str w ob @ ''.'')))
          else if int (length bs) \<le> n - 1 then (Inl IndexError, enter w EditEvent)
          else
            (case map_of (get_event_types h ob) name of
               None \<Rightarrow> (Inl KeyError, enter w EditEvent)
             | Some d \<Rightarrow>
                 (Inr (), EvEditor
                    ((msg (enter w EditEvent) c (Text (snd d)))
                       \<lparr>db_event := (db_event w)(c \<mapsto> with_address (bs ! nat (n - 1)) ob name (n - 1))\<rparr>)
                    c (''Event '' @ name @ '' of '' @ obj_str w ob))))"
proof -
  have v: "py_int params = Inl e \<Longrightarrow> e = ValueError" for e
    by (auto simp: py_int_def split: list.splits if_splits option.splits)
  from assms show ?thesis
    by (auto simp: edit_event_def Let_def enter_def msg_def dest: v split: sum.splits option.splits)
qed

text \<open>
  The three shapes of a wrong ordinal, for every world: a text that is no number and a
  number below one are reported as not found, a number above the count raises
  \<^verbatim>\<open>IndexError\<close>.
\<close>

lemma edit_event_wrong_ordinal:
  assumes "handler w = Some h" "get_events h ob name = Some bs"
  shows "py_int params = Inl e \<Longrightarrow>
           edit_event w c ob name params =
             (Inr (), msg (enter w EditEvent) c (Text (''The event '' @ name @ '' '' @ params
                        @ '' cannot be found in '' @ obj_str w ob @ ''.'')))"
    and "py_int params = Inr n \<Longrightarrow> n < 1 \<Longrightarrow>
           edit_event w c ob name params =
             (Inr (), msg (enter w EditEvent) c (Text (''The event '' @ name @ '' ''
                        @ str_of_int (n - 1) @ '' cannot be found in '' @ obj_str w ob @ ''.'')))"
    and "py_int params = Inr n \<Longrightarrow> int (length bs) < n \<Longrightarrow>
           edit_event w c ob name params = (Inl IndexError, enter w EditEvent)"
  by (simp_all add: edit_event_found [OF assms])

text \<open>
  An ordinal with a separator character (28 to 31) around the digits is no number for
  \<^verbatim>\<open>int\<close>, although \<^verbatim>\<open>str.strip\<close> would remove the separator; the no-break space and the
  next-line character are skipped.
\<close>

lemma py_int_separator:
  "py_int [CHR 0x1C, CHR ''1''] = Inl ValueError
   \<and> py_int [CHR ''1'', CHR 0x1F] = Inl ValueError
   \<and> strip [CHR 0x1C, CHR ''1''] = ''1''
   \<and> py_int [CHR 0xA0, CHR ''1'', CHR 0x85] = Inr 1"
  by (simp add: py_int_def int_strip_def int_isspace_def strip_def py_isspace_def
      parse_number_def is_digit_def digit_val_def)

text \<open>
  Such an ordinal on the door whose event type is gone: the conversion fails first, so the
  caller is told that the event cannot be found.
\<close>

lemma edit_event_separator_ordinal:
  "edit_event w_orphan builder door ''open'' [CHR 0x1C, CHR ''1''] =
     (Inr (), msg (enter w_orphan EditEvent) builder
        (Text (''The event open '' @ [CHR 0x1C, CHR ''1''] @ '' cannot be found in door.'')))"
proof -
  have h: "handler w_orphan = Some h_orphan"
    by (simp add: w_orphan_def)
  have e: "get_events h_orphan door ''open'' = Some [b_pass]"
    by (simp add: get_events_def h_orphan_def h_one_def)
  have p: "py_int [CHR 0x1C, CHR ''1''] = Inl ValueError"
    by (simp add: py_int_separator)
  have s: "obj_str w_orphan door = ''door''"
    by (simp add: w_orphan_def w_door_def)
  from edit_event_wrong_ordinal(1) [OF h e p, of builder] s show ?thesis
    by simp
qed

text \<open>
  C8. When the name has events on the object and the ordinal addresses one of them, but
  the name is not among the event types of the object, the edit command raises
  \<^verbatim>\<open>KeyError\<close>: no message is sent, \<^verbatim>\<open>caller.db._event\<close> is not set and no editor is
  opened.
\<close>

theorem edit_orphan_raises_KeyError:
  assumes "handler w = Some h" "get_events h ob name = Some bs"
    "py_int params = Inr n" "1 \<le> n" "n \<le> int (length bs)"
    "map_of (get_event_types h ob) name = None"
  shows "edit_event w c ob name params = (Inl KeyError, enter w EditEvent)
       \<and> db_event (snd (edit_event w c ob name params)) = db_event w
       \<and> editor (snd (edit_event w c ob name params)) = editor w
       \<and> out (snd (edit_event w c ob name params)) = out w
       \<and> handler (snd (edit_event w c ob name params)) = handler w"
proof -
  from assms have "edit_event w c ob name params = (Inl KeyError, enter w EditEvent)"
    by (simp add: edit_event_found)
  then show ?thesis by (simp add: enter_def)
qed

theorem edit_orphan_raises_KeyError_witness:
  "handler w_orphan = Some h_orphan
   \<and> get_events h_orphan door ''open'' = Some [b_pass]
   \<and> py_int ''1'' = Inr 1
   \<and> map_of (get_event_types h_orphan door) ''open'' = None
   \<and> edit_event w_orphan builder door ''open'' ''1'' = (Inl KeyError, enter w_orphan EditEvent)
   \<and> db_event (snd (edit_event w_orphan builder door ''open'' ''1'')) = db_event w_orphan
   \<and> editor (snd (edit_event w_orphan builder door ''open'' ''1'')) = editor w_orphan"
proof -
  have h: "handler w_orphan = Some h_orphan"
    by (simp add: w_orphan_def)
  have e: "get_events h_orphan door ''open'' = Some [b_pass]"
    by (simp add: get_events_def h_orphan_def h_one_def)
  have p: "py_int ''1'' = Inr 1"
    by (simp add: py_int_def int_strip_def int_isspace_def parse_number_def is_digit_def
        digit_val_def)
  have t: "map_of (get_event_types h_orphan door) ''open'' = None"
    by (simp add: get_event_types_def h_orphan_def)
  have n: "(1::int) \<le> 1" "(1::int) \<le> int (length [b_pass])"
    by simp_all
  from edit_orphan_raises_KeyError [OF h e p n t, of builder] h e p t
  show ?thesis by blast
qed

subsection \<open>Listing the events of one name\<close>

lemma event_row_wt:
  assumes "wt_event e"
  shows "\<exists>r. event_row w v i e = Inr r"
proof -
  from assms have a: "\<exists>s. author_cell w e = Inr s"
    by (cases "dict_get e ''author''") (auto simp: wt_event_def author_cell_def)
  from assms have u: "\<exists>s. updated_cell w e = Inr s"
    by (cases "dict_get e ''updated_on''"; cases "dict_get e ''created_on''")
      (auto simp: wt_event_def updated_cell_def)
  from a u show ?thesis
    by (auto simp: event_row_def)
qed

lemma event_rows_length:
  "event_rows w v i bs = Inr rows \<Longrightarrow> length rows = length bs"
  by (induction bs arbitrary: i rows) (auto split: sum.splits)

lemma event_rows_wt:
  "list_all wt_event bs \<Longrightarrow> \<exists>rows. event_rows w v i bs = Inr rows"
proof (induction bs arbitrary: i)
  case Nil
  then show ?case by simp
next
  case (Cons e bs)
  from Cons.prems have "wt_event e" and rest: "list_all wt_event bs"
    by simp_all
  then obtain r where r: "event_row w v i e = Inr r"
    using event_row_wt by blast
  from Cons.IH [OF rest] obtain rows where "event_rows w v (Suc i) bs = Inr rows"
    by blast
  with r show ?case by simp
qed

text \<open>
  C5 as stated fails: when the name is a key of the object's events with an empty list,
  the listing sends a table without rows, not the message that no event has been set.
\<close>

theorem list_events_empty_list_counterexample:
  "get_events h_empty_list door ''open'' = Some []
   \<and> handler w_empty_list = Some h_empty_list
   \<and> fst (func w_empty_list (cmd_door [] (Some ''open''))) = Inr ()
   \<and> out (snd (func w_empty_list (cmd_door [] (Some ''open''))))
       = [(builder, Table [''Number'', ''Author'', ''Updated''] [])]"
proof -
  have "get_events h_empty_list door ''open'' = Some []"
    by (simp add: get_events_def h_empty_list_def)
  moreover have "handler w_empty_list = Some h_empty_list"
    by (simp add: w_empty_list_def)
  moreover have "fst (func w_empty_list (cmd_door [] (Some ''open''))) = Inr ()"
    by code_simp
  moreover have "out (snd (func w_empty_list (cmd_door [] (Some ''open''))))
       = [(builder, Table [''Number'', ''Author'', ''Updated''] [])]"
    by code_simp
  ultimately show ?thesis by blast
qed

text \<open>
  C5, amended. For a listing with an event name: when the name is no key of the object's
  events, the caller is told that no such event has been set; when it is a key, with
  well-typed events, a table with one row per event is sent, which has no row when the
  list is empty; and whenever a table is sent, the name is a key and the table has one
  row per event.
\<close>

theorem list_events_by_name:
  assumes "handler w = Some h" "name \<noteq> []"
  shows "(get_events h ob name = None \<longrightarrow>
            list_events w c ob name v =
              (Inr (), msg (enter w ListEvents) c
                 (Text (''No event '' @ name @ '' has been set on '' @ obj_str w ob @ ''.''))))
       \<and> (\<forall>bs. get_events h ob name = Some bs \<and> list_all wt_event bs \<longrightarrow>
            (\<exists>rows. list_events w c ob name v =
                (Inr (), msg (enter w ListEvents) c
                   (Table ([''Number'', ''Author'', ''Updated''] @ (if v then [''Valid''] else []))
                      rows))
              \<and> length rows = length bs))
       \<and> (\<forall>hdr rows. snd (list_events w c ob name v) = msg (enter w ListEvents) c (Table hdr rows)
            \<longrightarrow> (\<exists>bs. get_events h ob name = Some bs \<and> length rows = length bs))"
proof (intro conjI allI impI)
  assume "get_events h ob name = None"
  with assms show "list_events w c ob name v =
      (Inr (), msg (enter w ListEvents) c
         (Text (''No event '' @ name @ '' has been set on '' @ obj_str w ob @ ''.'')))"
    by (simp add: list_events_def Let_def enter_def)
next
  fix bs
  assume b: "get_events h ob name = Some bs \<and> list_all wt_event bs"
  then obtain rows where r: "event_rows (enter w ListEvents) v 0 bs = Inr rows"
    using event_rows_wt by blast
  then have "length rows = length bs"
    by (rule event_rows_length)
  moreover from assms b r have "list_events w c ob name v =
      (Inr (), msg (enter w ListEvents) c
         (Table ([''Number'', ''Author'', ''Updated''] @ (if v then [''Valid''] else [])) rows))"
    by (simp add: list_events_def Let_def handler_enter)
  ultimately show "\<exists>rows. list_events w c ob name v =
                (Inr (), msg (enter w ListEvents) c
                   (Table ([''Number'', ''Author'', ''Updated''] @ (if v then [''Valid''] else []))
                      rows))
              \<and> length rows = length bs"
    by blast
next
  fix hdr rows
  assume t: "snd (list_events w c ob name v) = msg (enter w ListEvents) c (Table hdr rows)"
  show "\<exists>bs. get_events h ob name = Some bs \<and> length rows = length bs"
  proof (cases "get_events h ob name")
    case None
    with assms have "snd (list_events w c ob name v) = msg (enter w ListEvents) c
         (Text (''No event '' @ name @ '' has been set on '' @ obj_str w ob @ ''.''))"
      by (simp add: list_events_def Let_def enter_def)
    with t have "out (msg (enter w ListEvents) c (Table hdr rows))
        = out (msg (enter w ListEvents) c
         (Text (''No event '' @ name @ '' has been set on '' @ obj_str w ob @ ''.'')))"
      by simp
    then show ?thesis by (simp add: msg_def)
  next
    case (Some bs)
    show ?thesis
    proof (cases "event_rows (enter w ListEvents) v 0 bs")
      case (Inl e)
      with assms Some have "snd (list_events w c ob name v) = enter w ListEvents"
        by (simp add: list_events_def Let_def handler_enter)
      with t have "out (msg (enter w ListEvents) c (Table hdr rows)) = out (enter w ListEvents)"
        by simp
      then show ?thesis by (simp add: msg_def)
    next
      case (Inr rows')
      with assms Some have "snd (list_events w c ob name v) = msg (enter w ListEvents) c
          (Table ([''Number'', ''Author'', ''Updated''] @ (if v then [''Valid''] else [])) rows')"
        by (simp add: list_events_def Let_def handler_enter)
      with t have "out (msg (enter w ListEvents) c (Table hdr rows))
          = out (msg (enter w ListEvents) c
          (Table ([''Number'', ''Author'', ''Updated''] @ (if v then [''Valid''] else [])) rows'))"
        by simp
      then have "rows = rows'" by (simp add: msg_def)
      with Inr Some event_rows_length show ?thesis by blast
    qed
  qed
qed

theorem list_events_by_name_witness:
  "handler w_one = Some h_one
   \<and> get_events h_one door ''open'' = Some [b_pass] \<and> list_all wt_event [b_pass]
   \<and> get_events h_one door ''close'' = None
   \<and> (\<exists>rows. list_events w_one builder door ''open'' True =
          (Inr (), msg (enter w_one ListEvents) builder
             (Table [''Number'', ''Author'', ''Updated'', ''Valid''] rows))
        \<and> length rows = 1)
   \<and> list_events w_one builder door ''close'' True =
       (Inr (), msg (enter w_one ListEvents) builder
          (Text ''No event close has been set on door.''))"
proof -
  have h: "handler w_one = Some h_one"
    by (simp add: w_one_def)
  have e: "get_events h_one door ''open'' = Some [b_pass]"
    by (simp add: get_events_def h_one_def)
  have n: "get_events h_one door ''close'' = None"
    by (simp add: get_events_def h_one_def)
  have t: "list_all wt_event [b_pass]"
    by (simp add: wt_event_def b_pass_def dict_get_def)
  have s: "obj_str w_one door = ''door''"
    by (simp add: w_one_def w_door_def)
  have 1: "''open'' \<noteq> []" and 2: "''close'' \<noteq> []"
    by simp_all
  from list_events_by_name [OF h 1, of door builder True] e t
  have a: "\<exists>rows. list_events w_one builder door ''open'' True =
          (Inr (), msg (enter w_one ListEvents) builder
             (Table [''Number'', ''Author'', ''Updated'', ''Valid''] rows))
        \<and> length rows = 1"
    by auto
  from list_events_by_name [OF h 2, of door builder True] n s
  have b: "list_events w_one builder door ''close'' True =
       (Inr (), msg (enter w_one ListEvents) builder
          (Text ''No event close has been set on door.''))"
    by simp
  from h e n t a b show ?thesis by blast
qed

subsection \<open>The summary of all event types\<close>

lemma sum_code_lines_has_code:
  "list_all has_code bs \<Longrightarrow>
     sum_code_lines bs = Inr (sum_list (map (\<lambda>e. length (splitlines (code_of e))) bs))"
proof (induction bs)
  case Nil
  then show ?case by simp
next
  case (Cons e bs)
  from Cons.prems have "has_code e" and rest: "list_all has_code bs"
    by simp_all
  then have "code_lines e = Inr (length (splitlines (code_of e)))"
    by (auto simp: has_code_def code_lines_def code_of_def split: option.splits pyval.splits)
  with Cons.IH [OF rest] show ?case by simp
qed

lemma summary_row_spec:
  assumes "list_all has_code (get_or_empty evs (fst item))" "splitlines (snd (snd item)) \<noteq> []"
  shows "summary_row evs item = Inr (spec_summary_row evs item)"
proof -
  from assms(2) obtain d ds where "splitlines (snd (snd item)) = d # ds"
    by (cases "splitlines (snd (snd item))") auto
  with sum_code_lines_has_code [OF assms(1)] show ?thesis
    by (simp add: summary_row_def spec_summary_row_def Let_def)
qed

lemma summary_rows_spec:
  "list_all (\<lambda>item. list_all has_code (get_or_empty evs (fst item))) items \<Longrightarrow>
   list_all (\<lambda>item. splitlines (snd (snd item)) \<noteq> []) items \<Longrightarrow>
     summary_rows evs items = Inr (map (spec_summary_row evs) items)"
  by (induction items) (simp_all add: summary_row_spec)

lemma list_all_sort: "list_all P (sort xs) = list_all P xs"
  by (simp add: list_all_iff)

lemma sorted_map_fst:
  fixes xs :: "('a::linorder \<times> 'b::linorder) list"
  shows "sorted xs \<Longrightarrow> sorted (map fst xs)"
  by (induction xs) (auto simp: less_eq_prod_def)

lemma map_fst_sort:
  fixes xs :: "('a::linorder \<times> 'b::linorder) list"
  shows "map fst (sort xs) = sort (map fst xs)"
proof -
  have "mset (map fst (sort xs)) = mset (map fst xs)"
    by simp
  moreover have "sorted (map fst (sort xs))"
    by (rule sorted_map_fst) simp
  ultimately show ?thesis
    by (metis properties_for_sort)
qed

text \<open>
  C7 as stated fails: when a registered event type has an empty description, the listing
  without event name raises \<^verbatim>\<open>IndexError\<close> (\<^verbatim>\<open>"".splitlines()\<close> has no first element) and
  sends no table at all.
\<close>

theorem list_events_no_description_counterexample:
  "get_event_types h_no_description door = [(''open'', ''door'', [])]
   \<and> handler w_no_description = Some h_no_description
   \<and> fst (func w_no_description (cmd_door [] None)) = Inl IndexError
   \<and> out (snd (func w_no_description (cmd_door [] None))) = []"
proof -
  have "get_event_types h_no_description door = [(''open'', ''door'', [])]"
    by (simp add: get_event_types_def h_no_description_def)
  moreover have "handler w_no_description = Some h_no_description"
    by (simp add: w_no_description_def)
  moreover have "fst (func w_no_description (cmd_door [] None)) = Inl IndexError"
    by code_simp
  moreover have "out (snd (func w_no_description (cmd_door [] None))) = []"
    by code_simp
  ultimately show ?thesis by blast
qed

text \<open>
  C7, amended. For a listing without event name on an object whose registered event types
  all have a description of at least one line (and whose events carry their code as a
  string): one table is sent, with exactly one row per registered type, in the ascending
  order of the type names by code point, and each row holds the type name, the number of
  events under that name (0 if none), the sum over these events of the number of lines of
  their code, and the first line of the description.
\<close>

theorem list_events_summary:
  assumes "handler w = Some h"
    "list_all (\<lambda>item. splitlines (snd (snd item)) \<noteq> []) (get_event_types h ob)"
    "list_all (\<lambda>item. list_all has_code (get_or_empty (get_events h ob) (fst item)))
       (get_event_types h ob)"
  shows "list_events w c ob [] v =
           (Inr (), msg (enter w ListEvents) c
              (Table [''Event name'', ''Number'', ''Lines'', ''Description'']
                 (map (spec_summary_row (get_events h ob)) (sort (get_event_types h ob)))))
       \<and> map hd (map (spec_summary_row (get_events h ob)) (sort (get_event_types h ob)))
           = map CStr (sort (map fst (get_event_types h ob)))
       \<and> length (map (spec_summary_row (get_events h ob)) (sort (get_event_types h ob)))
           = length (get_event_types h ob)"
proof -
  let ?types = "get_event_types h ob"
  let ?evs = "get_events h ob"
  from assms(2) assms(3)
  have "summary_rows ?evs (sort ?types) = Inr (map (spec_summary_row ?evs) (sort ?types))"
    by (intro summary_rows_spec) (simp_all add: list_all_sort)
  with assms(1) have "list_events w c ob [] v =
           (Inr (), msg (enter w ListEvents) c
              (Table [''Event name'', ''Number'', ''Lines'', ''Description'']
                 (map (spec_summary_row ?evs) (sort ?types))))"
    by (simp add: list_events_def Let_def enter_def)
  moreover have "map hd (map (spec_summary_row ?evs) (sort ?types))
      = map CStr (map fst (sort ?types))"
    by (simp add: spec_summary_row_def)
  then have "map hd (map (spec_summary_row ?evs) (sort ?types)) = map CStr (sort (map fst ?types))"
    by (simp only: map_fst_sort)
  ultimately show ?thesis by simp
qed

theorem list_events_summary_witness:
  "handler w_two_types = Some h_two_types
   \<and> get_event_types h_two_types door
       = [(''open'', ''door'', ''Called when the door opens.''),
          (''close'', ''door'', ''Called when the door closes.'')]
   \<and> list_events w_two_types builder door [] False =
       (Inr (), msg (enter w_two_types ListEvents) builder
          (Table [''Event name'', ''Number'', ''Lines'', ''Description'']
             [[CStr ''close'', CInt 0, CInt 0, CStr ''Called when the door closes.''],
              [CStr ''open'', CInt 2, CInt 3, CStr ''Called when the door opens.'']]))"
proof -
  have h: "handler w_two_types = Some h_two_types"
    by (simp add: w_two_types_def)
  have t: "get_event_types h_two_types door
       = [(''open'', ''door'', ''Called when the door opens.''),
          (''close'', ''door'', ''Called when the door closes.'')]"
    by (simp add: get_event_types_def h_two_types_def)
  have d: "list_all (\<lambda>item. splitlines (snd (snd item)) \<noteq> []) (get_event_types h_two_types door)"
    unfolding t by code_simp
  have k: "list_all (\<lambda>item. list_all has_code (get_or_empty (get_events h_two_types door) (fst item)))
       (get_event_types h_two_types door)"
    unfolding t by code_simp
  have r: "map (spec_summary_row (get_events h_two_types door)) (sort (get_event_types h_two_types door))
      = [[CStr ''close'', CInt 0, CInt 0, CStr ''Called when the door closes.''],
         [CStr ''open'', CInt 2, CInt 3, CStr ''Called when the door opens.'']]"
    unfolding t by code_simp
  from list_events_summary [OF h d k, of builder False] h t show ?thesis
    unfolding r by blast
qed

subsection \<open>The dispatch on the switch\<close>

lemma entered_EvEditor: "entered (EvEditor w c key) = entered w"
  by (simp add: EvEditor_def)

lemma entered_list_events:
  "entered (snd (list_events w c ob name v)) = entered w @ [ListEvents]"
  by (simp add: list_events_def Let_def entered_msg enter_def split: option.split sum.split)

lemma entered_add_event:
  "entered (snd (add_event w c ob name)) = entered w @ [AddEvent]"
  by (simp add: add_event_def Let_def entered_msg entered_EvEditor enter_def
      split: option.split sum.split prod.split)

lemma entered_edit_event:
  "entered (snd (edit_event w c ob name params)) = entered w @ [EditEvent]"
  by (simp add: edit_event_def Let_def entered_msg entered_EvEditor enter_def
      split: option.split sum.split)

lemma entered_del_event: "entered (snd (del_event w c)) = entered w @ [DelEvent]"
  by (simp add: del_event_def entered_msg enter_def)

lemma entered_accept_event: "entered (snd (accept_event w c)) = entered w @ [AcceptEvent]"
  by (simp add: accept_event_def entered_msg enter_def)

lemma func_entered_not_validator:
  assumes "\<not> check_lockstring w (caller cmd) (validator_lock w)"
  shows "entered (snd (func w cmd)) = entered w
       \<or> (\<exists>m. m \<noteq> AcceptEvent \<and> entered (snd (func w cmd)) = entered w @ [m])"
  using assms
  by (auto simp: func_def Let_def entered_msg entered_list_events entered_add_event
      entered_edit_event entered_del_event split: option.split)

text \<open>
  C9. For a caller who fails the validator lock, no invocation of the command enters
  \<^verbatim>\<open>accept_event\<close>; and when the dispatch is reached with the switch \<^verbatim>\<open>accept\<close> (the
  handler is running, and the object, if one is named, is found), the command only sends
  the message of the last branch. Before the dispatch, \<^verbatim>\<open>func\<close> returns early when the
  handler is not running or the named object is not found.
\<close>

theorem accept_only_for_validators:
  assumes "\<not> check_lockstring w (caller cmd) (validator_lock w)"
  shows "count_list (entered (snd (func w cmd))) AcceptEvent = count_list (entered w) AcceptEvent
       \<and> (\<forall>h rest. handler w = Some h \<and> switches cmd = ''accept'' # rest
              \<and> (strip (args cmd) = [] \<or> search w (caller cmd) (lhs cmd) \<noteq> None) \<longrightarrow>
            func w cmd = (Inr (), msg w (caller cmd)
              (Text ''Mutually exclusive or invalid switches were used, cannot proceed.'')))"
proof (intro conjI allI impI)
  from func_entered_not_validator [OF assms]
  show "count_list (entered (snd (func w cmd))) AcceptEvent = count_list (entered w) AcceptEvent"
    by auto
next
  fix h rest
  assume a: "handler w = Some h \<and> switches cmd = ''accept'' # rest
              \<and> (strip (args cmd) = [] \<or> search w (caller cmd) (lhs cmd) \<noteq> None)"
  with assms show "func w cmd = (Inr (), msg w (caller cmd)
              (Text ''Mutually exclusive or invalid switches were used, cannot proceed.''))"
    by (auto simp: func_def Let_def)
qed

text \<open>For a validator the same invocation runs \<^verbatim>\<open>accept_event\<close>.\<close>

lemma func_accept_validator:
  assumes "check_lockstring w (caller cmd) (validator_lock w)" "handler w = Some h"
    "switches cmd = ''accept'' # rest"
    "strip (args cmd) = [] \<or> search w (caller cmd) (lhs cmd) \<noteq> None"
  shows "func w cmd = accept_event w (caller cmd)"
  using assms by (auto simp: func_def Let_def)

theorem accept_only_for_validators_witness:
  "\<not> check_lockstring w_door (caller (cmd_door [''accept''] None)) (validator_lock w_door)
   \<and> handler w_door = Some h_door
   \<and> switches (cmd_door [''accept''] None) = [''accept'']
   \<and> search w_door (caller (cmd_door [''accept''] None)) (lhs (cmd_door [''accept''] None))
       = Some door
   \<and> count_list (entered (snd (func w_door (cmd_door [''accept''] None)))) AcceptEvent = 0
   \<and> func w_door (cmd_door [''accept''] None) =
       (Inr (), msg w_door builder
          (Text ''Mutually exclusive or invalid switches were used, cannot proceed.''))"
proof -
  let ?cmd = "cmd_door [''accept''] None"
  have p: "\<not> check_lockstring w_door (caller ?cmd) (validator_lock w_door)"
    by (simp add: w_door_def)
  have h: "handler w_door = Some h_door"
    by (simp add: w_door_def)
  have s: "switches ?cmd = [''accept'']" "caller ?cmd = builder"
    by (simp_all add: cmd_door_def)
  have f: "search w_door (caller ?cmd) (lhs ?cmd) = Some door"
    by (simp add: cmd_door_def w_door_def)
  have e: "entered w_door = []"
    by (simp add: w_door_def)
  from accept_only_for_validators [OF p] h s f e
  have "count_list (entered (snd (func w_door ?cmd))) AcceptEvent = 0"
    and "func w_door ?cmd = (Inr (), msg w_door builder
          (Text ''Mutually exclusive or invalid switches were used, cannot proceed.''))"
    by auto
  with p h s f show ?thesis by blast
qed

subsection \<open>The event name\<close>

lemma partition_space_with_parameters:
  "CHR '' '' \<notin> set n \<Longrightarrow> partition_space (n @ CHR '' '' # params) = (n, '' '', params)"
  by (simp add: partition_space_def dropWhile_append3 takeWhile_append2
      dropWhile_append takeWhile_append)

lemma partition_space_name_only:
  "CHR '' '' \<notin> set n \<Longrightarrow> partition_space n = (n, [], [])"
proof -
  assume "CHR '' '' \<notin> set n"
  then have "dropWhile (\<lambda>c. c \<noteq> CHR '' '') n = []"
    by (auto simp: dropWhile_eq_Nil_conv)
  then show ?thesis unfolding partition_space_def by (simp only: list.case)
qed

lemma func_rhs_cong:
  assumes "lower (fst (partition_space r1)) = lower (fst (partition_space r2))"
    "snd (snd (partition_space r1)) = snd (snd (partition_space r2))"
  shows "func w (cmd\<lparr>rhs := Some r1\<rparr>) = func w (cmd\<lparr>rhs := Some r2\<rparr>)"
  using assms by (simp add: func_def Let_def split: option.split)

text \<open>What \<^verbatim>\<open>func\<close> hands to the three methods that use the event name.\<close>

lemma func_dispatch:
  assumes "handler w = Some h" "strip (args cmd) \<noteq> []"
    "search w (caller cmd) (lhs cmd) = Some ob" "rhs cmd = Some r"
  shows "switches cmd = [] \<Longrightarrow>
           func w cmd = list_events w (caller cmd) ob (lower (fst (partition_space r)))
                          (check_lockstring w (caller cmd) (validator_lock w))"
    and "switches cmd = [''add''] \<Longrightarrow>
           func w cmd = add_event w (caller cmd) ob (lower (fst (partition_space r)))"
    and "switches cmd = [''edit''] \<Longrightarrow>
           func w cmd = edit_event w (caller cmd) ob (lower (fst (partition_space r)))
                          (snd (snd (partition_space r)))"
  using assms by (simp_all add: func_def Let_def split: option.split)

text \<open>
  C10. \<^verbatim>\<open>func\<close> lowercases the event name once, before the dispatch: two right-hand
  sides whose event names differ only in letter case (they are equal once lowercased),
  with the same parameters or without any, give the same result and the same world; and
  the listing, the add and the edit method are called with the lowercased name, so that
  their lookups in the event types and in the store and the session they record use it.
\<close>

theorem event_name_lowercased:
  assumes "CHR '' '' \<notin> set n1" "CHR '' '' \<notin> set n2" "lower n1 = lower n2"
  shows "func w (cmd\<lparr>rhs := Some (n1 @ CHR '' '' # params)\<rparr>)
           = func w (cmd\<lparr>rhs := Some (n2 @ CHR '' '' # params)\<rparr>)
       \<and> func w (cmd\<lparr>rhs := Some n1\<rparr>) = func w (cmd\<lparr>rhs := Some n2\<rparr>)
       \<and> (\<forall>h ob. handler w = Some h \<and> strip (args cmd) \<noteq> []
               \<and> search w (caller cmd) (lhs cmd) = Some ob \<longrightarrow>
            (switches cmd = [] \<longrightarrow>
               func w (cmd\<lparr>rhs := Some (n1 @ CHR '' '' # params)\<rparr>)
                 = list_events w (caller cmd) ob (lower n1)
                     (check_lockstring w (caller cmd) (validator_lock w)))
          \<and> (switches cmd = [''add''] \<longrightarrow>
               func w (cmd\<lparr>rhs := Some (n1 @ CHR '' '' # params)\<rparr>)
                 = add_event w (caller cmd) ob (lower n1))
          \<and> (switches cmd = [''edit''] \<longrightarrow>
               func w (cmd\<lparr>rhs := Some (n1 @ CHR '' '' # params)\<rparr>)
                 = edit_event w (caller cmd) ob (lower n1) params))"
proof -
  let ?r1 = "n1 @ CHR '' '' # params"
  have p1: "partition_space ?r1 = (n1, '' '', params)"
    using assms(1) by (rule partition_space_with_parameters)
  have p2: "partition_space (n2 @ CHR '' '' # params) = (n2, '' '', params)"
    using assms(2) by (rule partition_space_with_parameters)
  have a: "func w (cmd\<lparr>rhs := Some ?r1\<rparr>) = func w (cmd\<lparr>rhs := Some (n2 @ CHR '' '' # params)\<rparr>)"
    by (rule func_rhs_cong) (simp_all add: p1 p2 assms(3))
  have b: "func w (cmd\<lparr>rhs := Some n1\<rparr>) = func w (cmd\<lparr>rhs := Some n2\<rparr>)"
    by (rule func_rhs_cong)
      (simp_all add: partition_space_name_only [OF assms(1)]
        partition_space_name_only [OF assms(2)] assms(3))
  have c: "func w (cmd\<lparr>rhs := Some ?r1\<rparr>)
             = list_events w (caller cmd) ob (lower n1)
                 (check_lockstring w (caller cmd) (validator_lock w))"
    if "handler w = Some h" "strip (args cmd) \<noteq> []"
      "search w (caller cmd) (lhs cmd) = Some ob" "switches cmd = []" for h ob
    using func_dispatch(1) [of w h "cmd\<lparr>rhs := Some ?r1\<rparr>" ob ?r1] that by (simp add: p1)
  have d: "func w (cmd\<lparr>rhs := Some ?r1\<rparr>) = add_event w (caller cmd) ob (lower n1)"
    if "handler w = Some h" "strip (args cmd) \<noteq> []"
      "search w (caller cmd) (lhs cmd) = Some ob" "switches cmd = [''add'']" for h ob
    using func_dispatch(2) [of w h "cmd\<lparr>rhs := Some ?r1\<rparr>" ob ?r1] that by (simp add: p1)
  have e: "func w (cmd\<lparr>rhs := Some ?r1\<rparr>) = edit_event w (caller cmd) ob (lower n1) params"
    if "handler w = Some h" "strip (args cmd) \<noteq> []"
      "search w (caller cmd) (lhs cmd) = Some ob" "switches cmd = [''edit'']" for h ob
    using func_dispatch(3) [of w h "cmd\<lparr>rhs := Some ?r1\<rparr>" ob ?r1] that by (simp add: p1)
  from a b c d e show ?thesis by blast
qed

theorem event_name_lowercased_witness:
  "CHR '' '' \<notin> set ''OPEN'' \<and> CHR '' '' \<notin> set ''open'' \<and> lower ''OPEN'' = lower ''open''
   \<and> func w_one ((cmd_door [''edit''] None)\<lparr>rhs := Some ''OPEN 1''\<rparr>)
       = func w_one ((cmd_door [''edit''] None)\<lparr>rhs := Some ''open 1''\<rparr>)
   \<and> func w_one ((cmd_door [''edit''] None)\<lparr>rhs := Some ''OPEN 1''\<rparr>)
       = edit_event w_one builder door ''open'' ''1''
   \<and> map_option (\<lambda>e. map_of e ''name'')
        (db_event (snd (func w_one ((cmd_door [''edit''] None)\<lparr>rhs := Some ''OPEN 1''\<rparr>))) builder)
       = Some (Some (PStr ''open''))"
proof -
  let ?cmd = "cmd_door [''edit''] None"
  have s: "CHR '' '' \<notin> set ''OPEN''" "CHR '' '' \<notin> set ''open''"
    by simp_all
  have l: "lower ''OPEN'' = ''open''" "lower ''open'' = ''open''"
    by (simp_all add: lower_def py_lower_char_def)
  then have ll: "lower ''OPEN'' = lower ''open''"
    by simp
  have h: "handler w_one = Some h_one"
    by (simp add: w_one_def)
  have c: "strip (args ?cmd) \<noteq> []" "search w_one (caller ?cmd) (lhs ?cmd) = Some door"
    "switches ?cmd = [''edit'']" "caller ?cmd = builder"
    by (simp_all add: cmd_door_def strip_def py_isspace_def w_one_def w_door_def)
  have r: "''OPEN'' @ CHR '' '' # ''1'' = ''OPEN 1''" "''open'' @ CHR '' '' # ''1'' = ''open 1''"
    by simp_all
  from event_name_lowercased [OF s ll, where w = w_one and cmd = ?cmd and params = "''1''"]
  have t: "func w_one (?cmd\<lparr>rhs := Some ''OPEN 1''\<rparr>) = func w_one (?cmd\<lparr>rhs := Some ''open 1''\<rparr>)
       \<and> (handler w_one = Some h_one \<and> strip (args ?cmd) \<noteq> []
               \<and> search w_one (caller ?cmd) (lhs ?cmd) = Some door \<longrightarrow>
            (switches ?cmd = [''edit''] \<longrightarrow>
               func w_one (?cmd\<lparr>rhs := Some ''OPEN 1''\<rparr>)
                 = edit_event w_one (caller ?cmd) door (lower ''OPEN'') ''1''))"
    unfolding r by blast
  from t have a: "func w_one (?cmd\<lparr>rhs := Some ''OPEN 1''\<rparr>)
      = func w_one (?cmd\<lparr>rhs := Some ''open 1''\<rparr>)"
    by (rule conjunct1)
  from t h c have b: "func w_one (?cmd\<lparr>rhs := Some ''OPEN 1''\<rparr>)
       = edit_event w_one builder door (lower ''OPEN'') ''1''"
    by metis
  have n: "map_option (\<lambda>e. map_of e ''name'')
        (db_event (snd (edit_event w_one builder door ''open'' ''1'')) builder)
       = Some (Some (PStr ''open''))"
    by code_simp
  from b have b': "func w_one (?cmd\<lparr>rhs := Some ''OPEN 1''\<rparr>)
       = edit_event w_one builder door ''open'' ''1''"
    by (simp only: l)
  from n b' have n': "map_option (\<lambda>e. map_of e ''name'')
        (db_event (snd (func w_one (?cmd\<lparr>rhs := Some ''OPEN 1''\<rparr>))) builder)
       = Some (Some (PStr ''open''))"
    by (simp only:)
  from s ll a b' n' show ?thesis
    by blast
qed

end
